theory Spec2Isabelle
  imports Complex_Main
begin

section \<open>Variational quantum search: dense state-vector simulation\<close>

text \<open>
  The notebook works on numpy arrays of floating-point numbers. Arrays are modelled as
  lists (a vector) and lists of rows (a matrix); floating-point numbers are modelled as
  the real and complex numbers they approximate, so every statement below is about the
  exact arithmetic the program rounds. A Python exception is a value \<open>Inl e\<close>.
\<close>

datatype error = TypeError | ValueError | IndexError

type_synonym cvec = "complex list"
type_synonym cmat = "complex list list"

subsection \<open>numpy and scipy primitives\<close>

text \<open>Euclidean norm of a vector.\<close>

definition vnorm :: "'a::real_normed_vector list \<Rightarrow> real" where
  "vnorm v = sqrt (sum_list (map (\<lambda>z. (norm z)\<^sup>2) v))"

text \<open>\<open>np.outer(a, b)\<close>: entry \<open>(i, j)\<close> is \<open>a[i] * b[j]\<close>; nothing is conjugated.\<close>

definition outer :: "'a::times list \<Rightarrow> 'a list \<Rightarrow> 'a list list" where
  "outer a b = map (\<lambda>x. map (\<lambda>y. x * y) b) a"

text \<open>Unary minus on a matrix.\<close>

definition mneg :: "'a::uminus list list \<Rightarrow> 'a list list" where
  "mneg M = map (map uminus) M"

text \<open>Promotion of a real array to a complex one, as numpy does when the two meet.\<close>

definition cv :: "real list \<Rightarrow> cvec" where
  "cv v = map complex_of_real v"

definition cm :: "real list list \<Rightarrow> cmat" where
  "cm M = map (map complex_of_real) M"

text \<open>A scalar times a matrix, entry by entry.\<close>

definition smult :: "complex \<Rightarrow> cmat \<Rightarrow> cmat" where
  "smult c M = map (map (\<lambda>x. c * x)) M"

text \<open>Python's \<open>xs[i]\<close> for \<open>i \<ge> 0\<close>: IndexError out of range.\<close>

definition index :: "'a list \<Rightarrow> nat \<Rightarrow> error + 'a" where
  "index xs i = (if i < length xs then Inr (xs ! i) else Inl IndexError)"

text \<open>\<open>a.dot(b)\<close> without the shape check: the sum of the products, nothing conjugated.\<close>

definition vdot :: "cvec \<Rightarrow> cvec \<Rightarrow> complex" where
  "vdot a b = sum_list (map2 (*) a b)"

text \<open>\<open>a.dot(b)\<close> for two vectors: ValueError when the lengths differ.\<close>

definition dot_vv :: "cvec \<Rightarrow> cvec \<Rightarrow> error + complex" where
  "dot_vv a b = (if length a = length b then Inr (vdot a b) else Inl ValueError)"

text \<open>\<open>M.dot(v)\<close> for a matrix and a vector: ValueError when a row's length is not the vector's.\<close>

definition dot_mv :: "cmat \<Rightarrow> cvec \<Rightarrow> error + cvec" where
  "dot_mv M v =
     (if list_all (\<lambda>r. length r = length v) M then Inr (map (\<lambda>r. vdot r v) M)
      else Inl ValueError)"

definition is_square :: "'a list list \<Rightarrow> bool" where
  "is_square M = list_all (\<lambda>r. length r = length M) M"

definition eye :: "nat \<Rightarrow> cmat" where
  "eye n = map (\<lambda>i. map (\<lambda>j. if i = j then 1 else 0) [0..<n]) [0..<n]"

definition mat_mul :: "cmat \<Rightarrow> cmat \<Rightarrow> cmat" where
  "mat_mul A B =
     map (\<lambda>r. map (\<lambda>j. sum_list (map (\<lambda>k. r ! k * B ! k ! j) [0..<length B])) [0..<length B]) A"

fun mat_pow :: "cmat \<Rightarrow> nat \<Rightarrow> cmat" where
  "mat_pow A 0 = eye (length A)"
| "mat_pow A (Suc k) = mat_mul A (mat_pow A k)"

text \<open>
  \<open>scipy.linalg.expm(A)\<close>: the matrix exponential, the sum over \<open>k\<close> of
  \<open>A ^ k / k!\<close>, entry by entry; ValueError when \<open>A\<close> is not square.
\<close>

definition expm_entry :: "cmat \<Rightarrow> nat \<Rightarrow> nat \<Rightarrow> complex" where
  "expm_entry A i j = (\<Sum>k. mat_pow A k ! i ! j / of_nat (fact k))"

definition expm :: "cmat \<Rightarrow> error + cmat" where
  "expm A =
     (if is_square A
      then Inr (map (\<lambda>i. map (\<lambda>j. expm_entry A i j) [0..<length A]) [0..<length A])
      else Inl ValueError)"

subsection \<open>The notebook's functions\<close>

text \<open>
  \<open>plus_state(n_qubits)\<close> is \<open>np.array([1]*(2**n_qubits))/np.sqrt(2**n_qubits)\<close>.
  For a negative exponent Python's \<open>2**n_qubits\<close> is a float, and repeating a list a
  float number of times raises TypeError. There is no other check.
\<close>

definition plus_state :: "int \<Rightarrow> error + real list" where
  "plus_state n_qubits =
     (if n_qubits < 0 then Inl TypeError
      else Inr (map (\<lambda>x. x / sqrt (2 ^ nat n_qubits)) (replicate (2 ^ nat n_qubits) 1)))"

text \<open>\<open>H_operator(target_state)\<close> is \<open>-np.outer(target_state, target_state)\<close>.\<close>

definition H_operator :: "'a::{times,uminus} list \<Rightarrow> 'a list list" where
  "H_operator target_state = mneg (outer target_state target_state)"

text \<open>\<open>B_operator(n_qubits)\<close> is \<open>-np.outer(plus_state(n_qubits), plus_state(n_qubits))\<close>.\<close>

definition B_operator :: "int \<Rightarrow> error + real list list" where
  "B_operator n_qubits =
     (case plus_state n_qubits of
        Inl e \<Rightarrow> Inl e
      | Inr a \<Rightarrow> (case plus_state n_qubits of
                   Inl e \<Rightarrow> Inl e
                 | Inr b \<Rightarrow> Inr (mneg (outer a b))))"

text \<open>
  \<open>qaoa_step(state, H, n_qubits, params)\<close>:
  \<^verbatim>\<open>
    B=B_operator(n_qubits)
    state=(la.expm(-1j*params[0]*H)).dot(state)
    return (la.expm(-1j*params[1]*B)).dot(state)
  \<close>
\<close>

definition qaoa_step :: "cvec \<Rightarrow> cmat \<Rightarrow> int \<Rightarrow> real list \<Rightarrow> error + cvec" where
  "qaoa_step state H n_qubits params =
     (case B_operator n_qubits of Inl e \<Rightarrow> Inl e | Inr B \<Rightarrow>
      (case index params 0 of Inl e \<Rightarrow> Inl e | Inr a \<Rightarrow>
      (case expm (smult (- \<i> * complex_of_real a) H) of Inl e \<Rightarrow> Inl e | Inr U \<Rightarrow>
      (case dot_mv U state of Inl e \<Rightarrow> Inl e | Inr state' \<Rightarrow>
      (case index params 1 of Inl e \<Rightarrow> Inl e | Inr b \<Rightarrow>
      (case expm (smult (- \<i> * complex_of_real b) (cm B)) of Inl e \<Rightarrow> Inl e | Inr V \<Rightarrow>
      dot_mv V state'))))))"

text \<open>
  The loop of \<open>cost_function\<close> over the layer indices still to run:
  \<open>ini_state=qaoa_step(ini_state,H,n_qubits,params=[params[2*i],params[2*i+1]])\<close>.
\<close>

fun qaoa_layers :: "cmat \<Rightarrow> int \<Rightarrow> real list \<Rightarrow> nat list \<Rightarrow> cvec \<Rightarrow> error + cvec" where
  "qaoa_layers H n_qubits params [] ini_state = Inr ini_state"
| "qaoa_layers H n_qubits params (i # rest) ini_state =
     (case index params (2 * i) of Inl e \<Rightarrow> Inl e | Inr a \<Rightarrow>
      (case index params (2 * i + 1) of Inl e \<Rightarrow> Inl e | Inr b \<Rightarrow>
      (case qaoa_step ini_state H n_qubits [a, b] of Inl e \<Rightarrow> Inl e | Inr s \<Rightarrow>
      qaoa_layers H n_qubits params rest s)))"

text \<open>
  \<open>cost_function(H, n_qubits, p, params)\<close>: \<open>p\<close> layers from the uniform state
  (\<open>range(p)\<close> is empty for \<open>p \<le> 0\<close>), then
  \<open>((ini_state.conjugate().T).dot(H.dot(ini_state))).real, ini_state\<close>.
\<close>

definition cost_function :: "cmat \<Rightarrow> int \<Rightarrow> int \<Rightarrow> real list \<Rightarrow> error + (real \<times> cvec)" where
  "cost_function H n_qubits p params =
     (case plus_state n_qubits of Inl e \<Rightarrow> Inl e | Inr s0 \<Rightarrow>
      (case qaoa_layers H n_qubits params [0..<nat p] (cv s0) of Inl e \<Rightarrow> Inl e | Inr s \<Rightarrow>
      (case dot_mv H s of Inl e \<Rightarrow> Inl e | Inr Hs \<Rightarrow>
      (case dot_vv (map cnj s) Hs of Inl e \<Rightarrow> Inl e | Inr c \<Rightarrow> Inr (Re c, s)))))"

text \<open>
  \<open>overlap(target_state, state)\<close>:
  \<open>projector=np.outer(target_state, target_state)\<close>, then
  \<open>np.real((state.conj().T).dot(projector.dot(state)))\<close>.
\<close>

definition overlap :: "cvec \<Rightarrow> cvec \<Rightarrow> error + real" where
  "overlap target_state state =
     (case dot_mv (outer target_state target_state) state of Inl e \<Rightarrow> Inl e | Inr Ps \<Rightarrow>
      (case dot_vv (map cnj state) Ps of Inl e \<Rightarrow> Inl e | Inr c \<Rightarrow> Inr (Re c)))"

subsection \<open>The QIT notebook\<close>

text \<open>
  The second notebook does the same computation on state objects of the \<open>qit\<close> library
  and adds the depth sweep \<open>calc_n_p\<close>. It defines \<open>B_operator\<close> and \<open>qaoa_step\<close>
  again, with other parameters; those two carry the suffix \<open>_qit\<close> here. A ket is
  modelled by its vector of amplitudes; the library's operations are modelled by what
  its documentation says they compute:
  \<^item> \<open>qit.state.tensor(a, b)\<close>: the Kronecker product;
  \<^item> \<open>qit.state.projector(a)\<close>: the matrix with entries \<open>a[i] * conj(a[j])\<close>;
  \<^item> \<open>a.propagate(H, t)\<close>: \<open>expm(-1j * t * H)\<close> applied to \<open>a\<close>;
  \<^item> \<open>a.ev(A)\<close>: the real part of \<open>\<langle>a|A a\<rangle>\<close>;
  \<^item> \<open>qit.state.fidelity(a, b)\<close>: \<open>|\<langle>a|b\<rangle>|\<close> for two kets.
\<close>

definition tensor :: "cvec \<Rightarrow> cvec \<Rightarrow> cvec" where
  "tensor a b = concat (map (\<lambda>x. map (\<lambda>y. x * y) b) a)"

definition projector :: "cvec \<Rightarrow> cmat" where
  "projector a = outer a (map cnj a)"

definition propagate :: "cvec \<Rightarrow> cmat \<Rightarrow> real \<Rightarrow> error + cvec" where
  "propagate state H t =
     (case expm (smult (- \<i> * complex_of_real t) H) of Inl e \<Rightarrow> Inl e | Inr U \<Rightarrow>
      dot_mv U state)"

definition ev :: "cvec \<Rightarrow> cmat \<Rightarrow> error + real" where
  "ev state A =
     (case dot_mv A state of Inl e \<Rightarrow> Inl e | Inr As \<Rightarrow>
      (case dot_vv (map cnj state) As of Inl e \<Rightarrow> Inl e | Inr c \<Rightarrow> Inr (Re c)))"

definition fidelity :: "cvec \<Rightarrow> cvec \<Rightarrow> error + real" where
  "fidelity a b =
     (case dot_vv (map cnj a) b of Inl e \<Rightarrow> Inl e | Inr c \<Rightarrow> Inr (cmod c))"

text \<open>
  \<open>initial_state(n_qubits)\<close>: the one-qubit state
  \<open>(qit.state('0')+qit.state('1'))/np.sqrt(2)\<close>, tensored with itself once for each
  \<open>i\<close> in \<open>range(1, n_qubits)\<close>.
\<close>

definition plus_ket :: cvec where
  "plus_ket = map (\<lambda>x. x / complex_of_real (sqrt 2)) (map2 (+) [1, 0] [0, 1])"

definition initial_state :: "int \<Rightarrow> cvec" where
  "initial_state n_qubits = ((\<lambda>state. tensor state plus_ket) ^^ nat (n_qubits - 1)) plus_ket"

text \<open>\<open>C_operator(target_state, n_qubits)\<close> is \<open>-1*qit.state.projector(target_state)\<close>.\<close>

definition C_operator :: "cvec \<Rightarrow> int \<Rightarrow> cmat" where
  "C_operator target_state n_qubits = smult (- 1) (projector target_state)"

text \<open>\<open>B_operator(n_qubits)\<close> is \<open>-1*qit.state.projector(initial_state(n_qubits))\<close>.\<close>

definition B_operator_qit :: "int \<Rightarrow> cmat" where
  "B_operator_qit n_qubits = smult (- 1) (projector (initial_state n_qubits))"

text \<open>
  \<open>qaoa_step(state, target_state, n_qubits, params)\<close>:
  \<^verbatim>\<open>
    state=state.propagate(C_operator(target_state,n_qubits).data,params[0])
    return state.propagate(B_operator(n_qubits).data,params[1])
  \<close>
\<close>

definition qaoa_step_qit :: "cvec \<Rightarrow> cvec \<Rightarrow> int \<Rightarrow> real list \<Rightarrow> error + cvec" where
  "qaoa_step_qit state target_state n_qubits params =
     (case index params 0 of Inl e \<Rightarrow> Inl e | Inr a \<Rightarrow>
      (case propagate state (C_operator target_state n_qubits) a of Inl e \<Rightarrow> Inl e | Inr state' \<Rightarrow>
      (case index params 1 of Inl e \<Rightarrow> Inl e | Inr b \<Rightarrow>
      propagate state' (B_operator_qit n_qubits) b)))"

fun F_layers :: "cvec \<Rightarrow> int \<Rightarrow> real list \<Rightarrow> nat list \<Rightarrow> cvec \<Rightarrow> error + cvec" where
  "F_layers target_state n_qubits params [] ini_state = Inr ini_state"
| "F_layers target_state n_qubits params (i # rest) ini_state =
     (case index params (2 * i) of Inl e \<Rightarrow> Inl e | Inr a \<Rightarrow>
      (case index params (2 * i + 1) of Inl e \<Rightarrow> Inl e | Inr b \<Rightarrow>
      (case qaoa_step_qit ini_state target_state n_qubits [a, b] of Inl e \<Rightarrow> Inl e | Inr s \<Rightarrow>
      F_layers target_state n_qubits params rest s)))"

text \<open>
  \<open>F_function(target_state, n_qubits, p, params)\<close>: \<open>p\<close> layers from
  \<open>initial_state(n_qubits)\<close>, then
  \<open>ini_state.ev(C_operator(target_state,n_qubits).data), ini_state\<close>.
\<close>

definition F_function :: "cvec \<Rightarrow> int \<Rightarrow> int \<Rightarrow> real list \<Rightarrow> error + (real \<times> cvec)" where
  "F_function target_state n_qubits p params =
     (case F_layers target_state n_qubits params [0..<nat p] (initial_state n_qubits) of
        Inl e \<Rightarrow> Inl e | Inr s \<Rightarrow>
      (case ev s (C_operator target_state n_qubits) of Inl e \<Rightarrow> Inl e | Inr c \<Rightarrow> Inr (c, s)))"

text \<open>
  \<open>scipy.optimize.basinhopping(fun, params_0, minimizer_kwargs)\<close> is a parameter of the
  model: from the objective, the starting point and the bounds it returns
  \<open>result.x\<close>, or raises.
\<close>

type_synonym optimizer =
  "(real list \<Rightarrow> error + real) \<Rightarrow> real list \<Rightarrow> (real \<times> real) list \<Rightarrow> error + real list"

text \<open>
  \<open>get_params(target_state, n_qubits, p, params_0)\<close>: the objective is the first
  component of \<open>F_function\<close>; the bounds are \<open>(0, 2*pi)\<close> at even and \<open>(0, pi)\<close> at odd
  positions; the result is \<open>[result.x[i] for i in range(2*p)]\<close>.
\<close>

definition bounds :: "int \<Rightarrow> (real \<times> real) list" where
  "bounds p = zip (map (\<lambda>i. 0) [0..<2 * nat p])
                  (map (\<lambda>i. if i mod 2 = 0 then 2 * pi else pi) [0..<2 * nat p])"

definition objective :: "cvec \<Rightarrow> int \<Rightarrow> int \<Rightarrow> real list \<Rightarrow> error + real" where
  "objective target_state n_qubits p x =
     (case F_function target_state n_qubits p x of Inl e \<Rightarrow> Inl e | Inr r \<Rightarrow> Inr (fst r))"

definition get_params :: "optimizer \<Rightarrow> cvec \<Rightarrow> int \<Rightarrow> int \<Rightarrow> real list \<Rightarrow> error + real list" where
  "get_params basinhopping target_state n_qubits p params_0 =
     (case basinhopping (objective target_state n_qubits p) params_0 (bounds p) of
        Inl e \<Rightarrow> Inl e
      | Inr x \<Rightarrow> (if 2 * nat p \<le> length x then Inr (map (\<lambda>i. x ! i) [0..<2 * nat p])
                  else Inl IndexError))"

text \<open>
  \<open>calc_n_p(target_state, n_qbits, p_steps)\<close>. The loop state is the running angle
  list \<open>params\<close> (the field \<open>running_params\<close>), the two result lists, and the cost values the loop prints.
  \<^verbatim>\<open>
    params=[0.5*np.pi,0.5*np.pi]
    for i in range(1,p_steps+1):
        params=get_params(target_state=target_state,p=i,n_qubits=n,params_0=params)
        f_value, state_2=F_function(target_state=target_state,params=params,p=i,n_qubits=n)
        qaoa_approximation.append(qit.state.fidelity(target_state,state_2)**2)
        p_array.append(i)
        print('Cost function value ', f_value)
        params.extend([0,0])
    return qaoa_approximation, p_array
  \<close>
\<close>

record sweep =
  running_params :: "real list"
  qaoa_approximation :: "real list"
  p_array :: "int list"
  printed :: "real list"

definition sweep_body :: "optimizer \<Rightarrow> cvec \<Rightarrow> int \<Rightarrow> int \<Rightarrow> sweep \<Rightarrow> error + sweep" where
  "sweep_body basinhopping target_state n i st =
     (case get_params basinhopping target_state n i (running_params st) of Inl e \<Rightarrow> Inl e | Inr ps \<Rightarrow>
      (case F_function target_state n i ps of Inl e \<Rightarrow> Inl e | Inr r \<Rightarrow>
      (case fidelity target_state (snd r) of Inl e \<Rightarrow> Inl e | Inr f \<Rightarrow>
      Inr \<lparr>running_params = ps @ [0, 0],
           qaoa_approximation = qaoa_approximation st @ [f\<^sup>2],
           p_array = p_array st @ [i],
           printed = printed st @ [fst r]\<rparr>)))"

fun sweep_loop :: "optimizer \<Rightarrow> cvec \<Rightarrow> int \<Rightarrow> int list \<Rightarrow> sweep \<Rightarrow> error + sweep" where
  "sweep_loop basinhopping target_state n [] st = Inr st"
| "sweep_loop basinhopping target_state n (i # rest) st =
     (case sweep_body basinhopping target_state n i st of Inl e \<Rightarrow> Inl e | Inr st' \<Rightarrow>
      sweep_loop basinhopping target_state n rest st')"

definition sweep_init :: sweep where
  "sweep_init = \<lparr>running_params = [0.5 * pi, 0.5 * pi], qaoa_approximation = [], p_array = [], printed = []\<rparr>"

definition calc_sweep :: "optimizer \<Rightarrow> cvec \<Rightarrow> int \<Rightarrow> int \<Rightarrow> error + sweep" where
  "calc_sweep basinhopping target_state n_qbits p_steps =
     sweep_loop basinhopping target_state n_qbits [1..p_steps] sweep_init"

definition calc_n_p :: "optimizer \<Rightarrow> cvec \<Rightarrow> int \<Rightarrow> int \<Rightarrow> error + (real list \<times> int list)" where
  "calc_n_p basinhopping target_state n_qbits p_steps =
     (case calc_sweep basinhopping target_state n_qbits p_steps of Inl e \<Rightarrow> Inl e | Inr st \<Rightarrow>
      Inr (qaoa_approximation st, p_array st))"

subsection \<open>The two functions on a store of arrays\<close>

text \<open>
  Python passes arrays by reference. To state what a call does to the arrays of its
  caller, the two functions are written once more over a store: a list of arrays,
  where a reference is a position, and every numpy operation that produces an array
  appends it to the store. An assignment \<open>state = ...\<close> makes the local name
  \<open>state\<close> refer to the new array. Arrays that no name is bound to (the scaled
  matrices and the exponentials) are not kept. The list \<open>params\<close> is only read, and
  is passed as a value.
\<close>

datatype array = Vec cvec | Mat cmat

type_synonym store = "array list"

definition alloc :: "store \<Rightarrow> array \<Rightarrow> store \<times> nat" where
  "alloc \<sigma> a = (\<sigma> @ [a], length \<sigma>)"

definition get_vec :: "store \<Rightarrow> nat \<Rightarrow> error + cvec" where
  "get_vec \<sigma> r =
     (if r < length \<sigma> then (case \<sigma> ! r of Vec v \<Rightarrow> Inr v | Mat m \<Rightarrow> Inl TypeError)
      else Inl TypeError)"

definition get_mat :: "store \<Rightarrow> nat \<Rightarrow> error + cmat" where
  "get_mat \<sigma> r =
     (if r < length \<sigma> then (case \<sigma> ! r of Mat m \<Rightarrow> Inr m | Vec v \<Rightarrow> Inl TypeError)
      else Inl TypeError)"

text \<open>
  \<open>qaoa_step\<close> on references: \<open>B\<close>, the new \<open>state\<close> and the returned array are
  allocated; \<open>state\<close> and \<open>H\<close> are read where the source reads them.
\<close>

definition qaoa_step_ref :: "store \<Rightarrow> nat \<Rightarrow> nat \<Rightarrow> int \<Rightarrow> real list \<Rightarrow> error + (store \<times> nat)" where
  "qaoa_step_ref \<sigma> state H n_qubits params =
     (case B_operator n_qubits of Inl e \<Rightarrow> Inl e | Inr Bm \<Rightarrow>
      (case alloc \<sigma> (Mat (cm Bm)) of (\<sigma>1, B) \<Rightarrow>
      (case index params 0 of Inl e \<Rightarrow> Inl e | Inr a \<Rightarrow>
      (case get_mat \<sigma>1 H of Inl e \<Rightarrow> Inl e | Inr Hm \<Rightarrow>
      (case expm (smult (- \<i> * complex_of_real a) Hm) of Inl e \<Rightarrow> Inl e | Inr U \<Rightarrow>
      (case get_vec \<sigma>1 state of Inl e \<Rightarrow> Inl e | Inr sv \<Rightarrow>
      (case dot_mv U sv of Inl e \<Rightarrow> Inl e | Inr sv' \<Rightarrow>
      (case alloc \<sigma>1 (Vec sv') of (\<sigma>2, state') \<Rightarrow>
      (case index params 1 of Inl e \<Rightarrow> Inl e | Inr b \<Rightarrow>
      (case get_mat \<sigma>2 B of Inl e \<Rightarrow> Inl e | Inr Bc \<Rightarrow>
      (case expm (smult (- \<i> * complex_of_real b) Bc) of Inl e \<Rightarrow> Inl e | Inr V \<Rightarrow>
      (case get_vec \<sigma>2 state' of Inl e \<Rightarrow> Inl e | Inr sv2 \<Rightarrow>
      (case dot_mv V sv2 of Inl e \<Rightarrow> Inl e | Inr out \<Rightarrow>
      Inr (alloc \<sigma>2 (Vec out)))))))))))))))"

text \<open>The loop of \<open>cost_function\<close> on references; \<open>ini_state\<close> is the reference carried along.\<close>

fun qaoa_layers_ref :: "nat \<Rightarrow> int \<Rightarrow> real list \<Rightarrow> nat list \<Rightarrow> store \<times> nat \<Rightarrow> error + (store \<times> nat)" where
  "qaoa_layers_ref H n_qubits params [] st = Inr st"
| "qaoa_layers_ref H n_qubits params (i # rest) st =
     (case index params (2 * i) of Inl e \<Rightarrow> Inl e | Inr a \<Rightarrow>
      (case index params (2 * i + 1) of Inl e \<Rightarrow> Inl e | Inr b \<Rightarrow>
      (case qaoa_step_ref (fst st) (snd st) H n_qubits [a, b] of Inl e \<Rightarrow> Inl e | Inr st' \<Rightarrow>
      qaoa_layers_ref H n_qubits params rest st')))"

definition cost_function_ref ::
  "store \<Rightarrow> nat \<Rightarrow> int \<Rightarrow> int \<Rightarrow> real list \<Rightarrow> error + (store \<times> real \<times> nat)" where
  "cost_function_ref \<sigma> H n_qubits p params =
     (case plus_state n_qubits of Inl e \<Rightarrow> Inl e | Inr s0 \<Rightarrow>
      (case qaoa_layers_ref H n_qubits params [0..<nat p] (alloc \<sigma> (Vec (cv s0))) of
         Inl e \<Rightarrow> Inl e | Inr st \<Rightarrow>
      (case get_mat (fst st) H of Inl e \<Rightarrow> Inl e | Inr Hm \<Rightarrow>
      (case get_vec (fst st) (snd st) of Inl e \<Rightarrow> Inl e | Inr s \<Rightarrow>
      (case dot_mv Hm s of Inl e \<Rightarrow> Inl e | Inr Hs \<Rightarrow>
      (case dot_vv (map cnj s) Hs of Inl e \<Rightarrow> Inl e | Inr c \<Rightarrow>
      Inr (fst st, Re c, snd st)))))))"

subsection \<open>The depth sweep as the specification words it\<close>

text \<open>
  Section 4.6 of the specification: the running angle vector starts as a two-element
  seed; after the optimizer has run for a depth, the running vector is the optimized
  angles with two zeros appended. \<open>warm_start k\<close> is the running vector after \<open>k\<close>
  depths, the seed of depth \<open>k + 1\<close>.
\<close>

fun warm_start :: "optimizer \<Rightarrow> cvec \<Rightarrow> int \<Rightarrow> nat \<Rightarrow> error + real list" where
  "warm_start basinhopping target_state n 0 = Inr [0.5 * pi, 0.5 * pi]"
| "warm_start basinhopping target_state n (Suc k) =
     (case warm_start basinhopping target_state n k of Inl e \<Rightarrow> Inl e | Inr w \<Rightarrow>
      (case get_params basinhopping target_state n (int (Suc k)) w of Inl e \<Rightarrow> Inl e | Inr x \<Rightarrow>
      Inr (x @ [0, 0])))"

text \<open>
  What is assumed of the optimizer: on an objective that raises nowhere on vectors of
  the starting point's length, it returns a vector of that length.
\<close>

definition well_behaved :: "optimizer \<Rightarrow> bool" where
  "well_behaved basinhopping \<longleftrightarrow>
     (\<forall>f x0 b. (\<forall>x. length x = length x0 \<longrightarrow> \<not> isl (f x)) \<longrightarrow>
        (\<exists>x. basinhopping f x0 b = Inr x \<and> length x = length x0))"

text \<open>An optimizer that never returns a point with a higher objective than its starting point.\<close>

definition never_worse :: "optimizer \<Rightarrow> bool" where
  "never_worse basinhopping \<longleftrightarrow>
     (\<forall>f x0 b x c0. basinhopping f x0 b = Inr x \<and> f x0 = Inr c0 \<longrightarrow>
        (\<exists>c. f x = Inr c \<and> c \<le> c0))"

text \<open>
  An optimizer that makes no progress beyond depth 1: it returns the starting point
  for two angles and the all-zero vector otherwise.
\<close>

definition stalled_optimizer :: optimizer where
  "stalled_optimizer f x0 b = (if length x0 = 2 then Inr x0 else Inr (replicate (length x0) 0))"

subsection \<open>The single-layer propagator as the specification words it\<close>

text \<open>
  Section 4.3 of the specification: from a state \<open>s\<close>, two supplied generators
  \<open>G1\<close> and \<open>G2\<close> and angles \<open>(a, b)\<close>, \<open>s' = exp(-i a G1) s\<close> and the result is
  \<open>exp(-i b G2) s'\<close>.
\<close>

definition propagator_spec :: "cvec \<Rightarrow> cmat \<Rightarrow> cmat \<Rightarrow> real \<Rightarrow> real \<Rightarrow> error + cvec" where
  "propagator_spec s G1 G2 a b =
     (case expm (smult (- \<i> * complex_of_real a) G1) of Inl e \<Rightarrow> Inl e | Inr U \<Rightarrow>
      (case dot_mv U s of Inl e \<Rightarrow> Inl e | Inr s' \<Rightarrow>
      (case expm (smult (- \<i> * complex_of_real b) G2) of Inl e \<Rightarrow> Inl e | Inr V \<Rightarrow>
      dot_mv V s')))"

subsection \<open>Closed forms used in the proofs\<close>

text \<open>The matrix with entries \<open>c * u[i] * w[j]\<close>.\<close>

definition rank1 :: "nat \<Rightarrow> complex \<Rightarrow> cvec \<Rightarrow> cvec \<Rightarrow> cmat" where
  "rank1 N c u w = map (\<lambda>i. map (\<lambda>j. c * (u ! i) * (w ! j)) [0..<N]) [0..<N]"

text \<open>
  The map \<open>s \<mapsto> s + z * \<langle>\<psi>|s\<rangle> * \<psi>\<close>, which is what the exponential of a multiple of
  the projector on \<open>\<psi>\<close> does to \<open>s\<close>.
\<close>

definition rot :: "cvec \<Rightarrow> complex \<Rightarrow> cvec \<Rightarrow> cvec" where
  "rot \<psi> z s = map (\<lambda>i. s ! i + z * (\<Sum>j<length s. cnj (\<psi> ! j) * s ! j) * \<psi> ! i) [0..<length s]"

text \<open>The squared Euclidean norm, as a sum over the indices.\<close>

definition sqnorm :: "cvec \<Rightarrow> real" where
  "sqnorm v = (\<Sum>i<length v. (cmod (v ! i))\<^sup>2)"

text \<open>The inner product \<open>\<langle>\<psi>|s\<rangle>\<close>, as a sum over the indices of \<open>s\<close>.\<close>

definition amp :: "cvec \<Rightarrow> cvec \<Rightarrow> complex" where
  "amp \<psi> s = (\<Sum>j<length s. cnj (\<psi> ! j) * s ! j)"

text \<open>The value of \<open>plus_state\<close> for a non-negative argument.\<close>

definition uniform :: "int \<Rightarrow> real list" where
  "uniform n = replicate (2 ^ nat n) (1 / sqrt (2 ^ nat n))"

section \<open>Properties\<close>

subsection \<open>Linear algebra on lists\<close>


lemma sum_list_upt_sum: "sum_list (map f [0..<n]) = (\<Sum>k<n. f k)"
  by (simp add: interv_sum_list_conv_sum_set_nat atLeast0LessThan)

lemma vdot_sum: "length a = length b \<Longrightarrow> vdot a b = (\<Sum>k<length b. a ! k * b ! k)"
proof -
  assume l: "length a = length b"
  have "sum_list (map2 (*) a b) = (\<Sum>k = 0..<length (map2 (*) a b). map2 (*) a b ! k)"
    by (rule sum_list_sum_nth)
  also have "\<dots> = (\<Sum>k<length b. a ! k * b ! k)"
    using l by (simp add: atLeast0LessThan)
  finally show ?thesis by (simp add: vdot_def)
qed

lemma length_rank1 [simp]: "length (rank1 N c u w) = N"
  by (simp add: rank1_def)

lemma nth_rank1 [simp]: "i < N \<Longrightarrow> rank1 N c u w ! i = map (\<lambda>j. c * (u ! i) * (w ! j)) [0..<N]"
  by (simp add: rank1_def)

lemma length_eye [simp]: "length (eye N) = N"
  by (simp add: eye_def)

lemma nth_eye [simp]: "i < N \<Longrightarrow> eye N ! i = map (\<lambda>j. if i = j then 1 else 0) [0..<N]"
  by (simp add: eye_def)

lemma tab_cong:
  "(\<And>i j. i < N \<Longrightarrow> j < M \<Longrightarrow> f i j = g i j) \<Longrightarrow>
   map (\<lambda>i. map (\<lambda>j. f i j) [0..<M]) [0..<N] = map (\<lambda>i. map (\<lambda>j. g i j) [0..<M]) [0..<N]"
  by simp

lemma mat_mul_tab:
  "mat_mul A B = map (\<lambda>i. map (\<lambda>j. \<Sum>k<length B. A ! i ! k * B ! k ! j) [0..<length B]) [0..<length A]"
proof -
  have "map f A = map (\<lambda>i. f (A ! i)) [0..<length A]" for f :: "complex list \<Rightarrow> complex list"
    by (rule nth_equalityI) simp_all
  then show ?thesis
    by (simp add: mat_mul_def sum_list_upt_sum)
qed

lemma rank1_nth2 [simp]: "i < N \<Longrightarrow> j < N \<Longrightarrow> rank1 N c u w ! i ! j = c * u ! i * w ! j"
  by simp

lemma eye_nth2 [simp]: "i < N \<Longrightarrow> j < N \<Longrightarrow> eye N ! i ! j = (if i = j then 1 else 0)"
  by simp

lemma mat_mul_rank1_eye: "mat_mul (rank1 N c u w) (eye N) = rank1 N c u w"
proof -
  have "(\<Sum>k<N. rank1 N c u w ! i ! k * eye N ! k ! j) = c * u ! i * w ! j"
    if "i < N" "j < N" for i j
  proof -
    have "(\<Sum>k<N. rank1 N c u w ! i ! k * eye N ! k ! j)
        = (\<Sum>k<N. if k = j then c * u ! i * w ! j else 0)"
      using that by (intro sum.cong) auto
    also have "\<dots> = c * u ! i * w ! j" using that by simp
    finally show ?thesis .
  qed
  then show ?thesis
    unfolding mat_mul_tab rank1_def [of N c u w, THEN eq_reflection] length_eye length_rank1
    using tab_cong [of N N "\<lambda>i j. \<Sum>k<N. rank1 N c u w ! i ! k * eye N ! k ! j" "\<lambda>i j. c * u ! i * w ! j"]
    by (simp add: rank1_def)
qed

lemma mat_mul_rank1_rank1:
  "mat_mul (rank1 N c u w) (rank1 N d u w) = rank1 N (c * d * (\<Sum>k<N. w ! k * u ! k)) u w"
proof -
  have "(\<Sum>k<N. rank1 N c u w ! i ! k * rank1 N d u w ! k ! j) = c * d * (\<Sum>k<N. w ! k * u ! k) * u ! i * w ! j"
    if "i < N" "j < N" for i j
  proof -
    have "(\<Sum>k<N. rank1 N c u w ! i ! k * rank1 N d u w ! k ! j)
        = (\<Sum>k<N. (c * u ! i * w ! k) * (d * u ! k * w ! j))"
      using that by (intro sum.cong) auto
    also have "\<dots> = c * d * (\<Sum>k<N. w ! k * u ! k) * u ! i * w ! j"
      by (simp add: sum_distrib_left sum_distrib_right algebra_simps)
    finally show ?thesis .
  qed
  then show ?thesis
    using tab_cong [of N N "\<lambda>i j. \<Sum>k<N. rank1 N c u w ! i ! k * rank1 N d u w ! k ! j"
        "\<lambda>i j. c * d * (\<Sum>k<N. w ! k * u ! k) * u ! i * w ! j"]
    by (simp add: mat_mul_tab) (simp add: rank1_def)
qed

lemma mat_pow_rank1:
  assumes "(\<Sum>k<N. w ! k * u ! k) = 1"
  shows "mat_pow (rank1 N c u w) (Suc k) = rank1 N (c ^ Suc k) u w"
proof (induction k)
  case 0
  show ?case by (simp add: mat_mul_rank1_eye)
next
  case (Suc k)
  have "mat_pow (rank1 N c u w) (Suc (Suc k)) = mat_mul (rank1 N c u w) (rank1 N (c ^ Suc k) u w)"
    using Suc by simp
  also have "\<dots> = rank1 N (c ^ Suc (Suc k)) u w"
    by (simp add: mat_mul_rank1_rank1 assms)
  finally show ?case .
qed

lemma expm_entry_rank1:
  assumes one: "(\<Sum>k<N. w ! k * u ! k) = 1" and i: "i < N" and j: "j < N"
  shows "expm_entry (rank1 N c u w) i j = (if i = j then 1 else 0) + (exp c - 1) * (u ! i * w ! j)"
proof -
  let ?f = "\<lambda>k. mat_pow (rank1 N c u w) k ! i ! j / of_nat (fact k)"
  have e: "(\<lambda>k. c ^ k /\<^sub>R fact k) sums exp c" by (rule exp_converges)
  have "(\<lambda>k. c ^ Suc k /\<^sub>R fact (Suc k)) sums (exp c - 1)"
    using e sums_Suc_iff [of "\<lambda>k. c ^ k /\<^sub>R fact k" "exp c - 1"] by simp
  then have "(\<lambda>k. (c ^ Suc k /\<^sub>R fact (Suc k)) * (u ! i * w ! j)) sums ((exp c - 1) * (u ! i * w ! j))"
    by (rule sums_mult2)
  moreover have "?f (Suc k) = (c ^ Suc k /\<^sub>R fact (Suc k)) * (u ! i * w ! j)" for k
    using i j by (simp add: mat_pow_rank1 [OF one] scaleR_conv_of_real divide_simps del: mat_pow.simps fact_Suc power_Suc)
  ultimately have "(\<lambda>k. ?f (Suc k)) sums ((exp c - 1) * (u ! i * w ! j))"
    by simp
  then have "?f sums ((exp c - 1) * (u ! i * w ! j) + ?f 0)"
    using sums_Suc_iff [of ?f "(exp c - 1) * (u ! i * w ! j)"] by blast
  moreover have "?f 0 = (if i = j then 1 else 0)"
    using i j by simp
  ultimately have "?f sums ((if i = j then 1 else 0) + (exp c - 1) * (u ! i * w ! j))"
    by (simp add: add.commute)
  then show ?thesis
    unfolding expm_entry_def by (rule sums_unique [symmetric])
qed

lemma is_square_rank1: "is_square (rank1 N c u w)"
  by (simp add: is_square_def rank1_def list_all_iff)

lemma expm_rank1:
  assumes one: "(\<Sum>k<N. w ! k * u ! k) = 1"
  shows "expm (rank1 N c u w) =
    Inr (map (\<lambda>i. map (\<lambda>j. (if i = j then 1 else 0) + (exp c - 1) * (u ! i * w ! j)) [0..<N]) [0..<N])"
  by (simp add: expm_def is_square_rank1 expm_entry_rank1 [OF one])

lemma dot_mv_tab:
  assumes "length s = N"
  shows "dot_mv (map (\<lambda>i. map (\<lambda>j. f i j) [0..<N]) [0..<N]) s
       = Inr (map (\<lambda>i. \<Sum>j<N. f i j * s ! j) [0..<N])"
proof -
  have "vdot (map (\<lambda>j. f i j) [0..<N]) s = (\<Sum>j<N. f i j * s ! j)" for i
  proof -
    have "vdot (map (\<lambda>j. f i j) [0..<N]) s = (\<Sum>j<N. map (\<lambda>j. f i j) [0..<N] ! j * s ! j)"
      using assms by (simp add: vdot_sum)
    also have "\<dots> = (\<Sum>j<N. f i j * s ! j)"
      by (intro sum.cong) auto
    finally show ?thesis .
  qed
  then show ?thesis
    using assms by (simp add: dot_mv_def list_all_iff)
qed

lemma dot_mv_expm_rank1:
  assumes "length s = N"
  shows "dot_mv (map (\<lambda>i. map (\<lambda>j. (if i = j then 1 else 0) + z * (u ! i * w ! j)) [0..<N]) [0..<N]) s
       = Inr (map (\<lambda>i. s ! i + z * (\<Sum>j<N. w ! j * s ! j) * u ! i) [0..<N])"
proof -
  have "(\<Sum>j<N. ((if i = j then 1 else 0) + z * (u ! i * w ! j)) * s ! j)
      = s ! i + z * (\<Sum>j<N. w ! j * s ! j) * u ! i" if "i < N" for i
  proof -
    have "(\<Sum>j<N. ((if i = j then 1 else 0) + z * (u ! i * w ! j)) * s ! j)
        = (\<Sum>j<N. (if j = i then s ! i else 0) + z * (u ! i * w ! j) * s ! j)"
      by (intro sum.cong) (auto simp: algebra_simps)
    also have "\<dots> = (\<Sum>j<N. (if j = i then s ! i else 0)) + (\<Sum>j<N. z * (u ! i * w ! j) * s ! j)"
      by (rule sum.distrib)
    also have "\<dots> = s ! i + z * (\<Sum>j<N. w ! j * s ! j) * u ! i"
      using that by (simp add: sum_distrib_left sum_distrib_right algebra_simps)
    finally show ?thesis .
  qed
  then show ?thesis
    by (simp add: dot_mv_tab [OF assms])
qed


lemma length_rot [simp]: "length (rot \<psi> z s) = length s"
  by (simp add: rot_def)

lemma sum_list_map_nth: "sum_list (map f xs) = (\<Sum>i<length xs. f (xs ! i))"
proof -
  have "sum_list (map f xs) = (\<Sum>i = 0..<length (map f xs). map f xs ! i)"
    by (rule sum_list_sum_nth)
  also have "\<dots> = (\<Sum>i<length xs. f (xs ! i))"
    by (simp add: atLeast0LessThan)
  finally show ?thesis .
qed

lemma vnorm_sqnorm: "vnorm (v::cvec) = sqrt (sqnorm v)"
  by (simp add: vnorm_def sqnorm_def sum_list_map_nth)

lemma sqnorm_nonneg: "0 \<le> sqnorm v"
  by (simp add: sqnorm_def sum_nonneg)

lemma vnorm_one_iff: "vnorm (v::cvec) = 1 \<longleftrightarrow> sqnorm v = 1"
  by (simp add: vnorm_sqnorm)

lemma cmod_add_sq: "(cmod (a + b))\<^sup>2 = (cmod a)\<^sup>2 + 2 * Re (cnj a * b) + (cmod b)\<^sup>2"
  by (simp add: cmod_power2) (simp add: power2_eq_square algebra_simps)

lemma sqnorm_rot:
  assumes len: "length \<psi> = length s" and unit: "sqnorm \<psi> = 1"
  shows "sqnorm (rot \<psi> z s)
       = sqnorm s + (cmod (\<Sum>j<length s. cnj (\<psi> ! j) * s ! j))\<^sup>2 * (2 * Re z + (cmod z)\<^sup>2)"
proof -
  define N where "N = length s"
  define c where "c = (\<Sum>j<N. cnj (\<psi> ! j) * s ! j)"
  have cc: "(\<Sum>i<N. cnj (s ! i) * \<psi> ! i) = cnj c"
    by (simp add: c_def mult.commute)
  have "sqnorm (rot \<psi> z s) = (\<Sum>i<N. (cmod (s ! i + z * c * \<psi> ! i))\<^sup>2)"
    unfolding sqnorm_def length_rot N_def c_def by (intro sum.cong) (auto simp: rot_def)
  also have "\<dots> = (\<Sum>i<N. (cmod (s ! i))\<^sup>2 + 2 * Re (cnj (s ! i) * (z * c * \<psi> ! i))
                       + (cmod (z * c))\<^sup>2 * (cmod (\<psi> ! i))\<^sup>2)"
    by (intro sum.cong refl) (simp add: cmod_add_sq norm_mult power_mult_distrib)
  also have "\<dots> = (\<Sum>i<N. (cmod (s ! i))\<^sup>2) + (\<Sum>i<N. 2 * Re (cnj (s ! i) * (z * c * \<psi> ! i)))
                       + (\<Sum>i<N. (cmod (z * c))\<^sup>2 * (cmod (\<psi> ! i))\<^sup>2)"
    by (simp only: sum.distrib)
  also have "(\<Sum>i<N. (cmod (z * c))\<^sup>2 * (cmod (\<psi> ! i))\<^sup>2) = (cmod (z * c))\<^sup>2 * sqnorm \<psi>"
    by (simp only: sqnorm_def len N_def sum_distrib_left)
  also have "(\<Sum>i<N. 2 * Re (cnj (s ! i) * (z * c * \<psi> ! i)))
           = 2 * Re ((z * c) * (\<Sum>i<N. cnj (s ! i) * \<psi> ! i))"
  proof -
    have "Re ((z * c) * (\<Sum>i<N. cnj (s ! i) * \<psi> ! i))
        = (\<Sum>i<N. Re ((z * c) * (cnj (s ! i) * \<psi> ! i)))"
      by (simp only: sum_distrib_left Re_sum)
    also have "\<dots> = (\<Sum>i<N. Re (cnj (s ! i) * (z * c * \<psi> ! i)))"
      by (intro sum.cong refl) (simp only: mult.assoc mult.left_commute)
    finally show ?thesis by (simp only: sum_distrib_left)
  qed
  also have "(\<Sum>i<N. (cmod (s ! i))\<^sup>2) = sqnorm s"
    by (simp only: sqnorm_def N_def)
  also have "(\<Sum>i<N. cnj (s ! i) * \<psi> ! i) = cnj c"
    by (rule cc)
  also have "Re ((z * c) * cnj c) = (cmod c)\<^sup>2 * Re z"
    by (simp add: cmod_power2) (simp add: power2_eq_square algebra_simps)
  finally have "sqnorm (rot \<psi> z s) = sqnorm s + 2 * ((cmod c)\<^sup>2 * Re z) + (cmod (z * c))\<^sup>2 * sqnorm \<psi>" .
  then show ?thesis
    unfolding c_def N_def by (simp add: unit norm_mult algebra_simps)
qed

lemma phase_shift_zero: "2 * Re (exp (\<i> * complex_of_real a) - 1) + (cmod (exp (\<i> * complex_of_real a) - 1))\<^sup>2 = 0"
proof -
  have c: "exp (\<i> * complex_of_real a) = cis a" by (simp add: cis_conv_exp)
  have "2 * Re (cis a - 1) + (cmod (cis a - 1))\<^sup>2 = 2 * (cos a - 1) + ((cos a - 1)\<^sup>2 + (sin a)\<^sup>2)"
    by (simp add: cmod_power2)
  also have "\<dots> = (cos a)\<^sup>2 + (sin a)\<^sup>2 - 1"
    by (simp add: power2_eq_square algebra_simps)
  also have "\<dots> = 0" by simp
  finally show ?thesis by (simp only: c)
qed

lemma sqnorm_rot_phase:
  assumes "length \<psi> = length s" and "sqnorm \<psi> = 1"
  shows "sqnorm (rot \<psi> (exp (\<i> * complex_of_real a) - 1) s) = sqnorm s"
  unfolding sqnorm_rot [OF assms] phase_shift_zero by simp


lemma map_tab: "map f xs = map (\<lambda>i. f (xs ! i)) [0..<length xs]"
  by (rule nth_equalityI) simp_all

lemma mneg_outer_tab:
  assumes "length u = N" "length w = N"
  shows "mneg (outer u w) = map (\<lambda>i. map (\<lambda>j. - (u ! i * w ! j)) [0..<N]) [0..<N]"
proof -
  have "map (\<lambda>y. - (x * y)) w = map (\<lambda>j. - (x * w ! j)) [0..<N]" for x :: "'a::{times,uminus}"
    using map_tab [of "\<lambda>y. - (x * y)" w] assms by simp
  then show ?thesis
    using map_tab [of "\<lambda>x. map (\<lambda>j. - (x * w ! j)) [0..<N]" u] assms
    by (simp add: mneg_def outer_def comp_def)
qed

lemma smult_mneg_outer:
  assumes "length u = N" "length w = N"
  shows "smult c (mneg (outer u w)) = rank1 N (- c) u w"
  by (simp add: mneg_outer_tab [OF assms] smult_def rank1_def comp_def algebra_simps)

lemma cm_H_operator: "cm (H_operator t) = mneg (outer (cv t) (map cnj (cv t)))"
  by (simp add: cm_def H_operator_def mneg_def outer_def cv_def comp_def)

lemma length_cv [simp]: "length (cv t) = length t"
  by (simp add: cv_def)

lemma sqnorm_cv: "sqnorm (cv t) = (\<Sum>i<length t. (t ! i)\<^sup>2)"
  unfolding sqnorm_def by (simp add: cv_def)

lemma vnorm_real_sq: "vnorm (t::real list) = sqrt (\<Sum>i<length t. (t ! i)\<^sup>2)"
  by (simp add: vnorm_def sum_list_map_nth)

lemma vnorm_cv: "vnorm (cv t) = vnorm t"
  by (simp add: vnorm_sqnorm sqnorm_cv vnorm_real_sq)

lemma cnj_dot_self:
  "(\<Sum>k<length u. map cnj u ! k * u ! k) = complex_of_real (sqnorm u)"
proof -
  have "(\<Sum>k<length u. map cnj u ! k * u ! k) = (\<Sum>k<length u. complex_of_real ((cmod (u ! k))\<^sup>2))"
    by (intro sum.cong refl) (simp add: complex_norm_square [symmetric] mult.commute)
  then show ?thesis by (simp add: sqnorm_def)
qed

lemma propagate_rank1:
  assumes len: "length u = length s" and unit: "sqnorm u = 1"
  shows "(case expm (smult (- \<i> * complex_of_real a) (mneg (outer u (map cnj u)))) of
            Inl e \<Rightarrow> Inl e | Inr U \<Rightarrow> dot_mv U s)
       = Inr (rot u (exp (\<i> * complex_of_real a) - 1) s)"
proof -
  define N where "N = length s"
  have one: "(\<Sum>k<N. map cnj u ! k * u ! k) = 1"
    using cnj_dot_self [of u] by (simp add: N_def len unit)
  have r: "smult (- \<i> * complex_of_real a) (mneg (outer u (map cnj u)))
         = rank1 N (\<i> * complex_of_real a) u (map cnj u)"
    using smult_mneg_outer [of u N "map cnj u" "- \<i> * complex_of_real a"] by (simp add: N_def len)
  have "map (\<lambda>i. s ! i + z * (\<Sum>j<N. map cnj u ! j * s ! j) * u ! i) [0..<N] = rot u z s" for z
    unfolding rot_def N_def [symmetric]
    by (rule map_cong [OF refl], rule arg_cong [where f = "\<lambda>x. _ + _ * x * _"], rule sum.cong)
       (simp_all add: N_def len [symmetric])
  then show ?thesis
    unfolding r expm_rank1 [OF one] by (simp add: dot_mv_expm_rank1 N_def)
qed

subsection \<open>The uniform superposition\<close>

lemma sum_list_replicate_const: "sum_list (replicate k (c::real)) = real k * c"
  by (induction k) (simp_all add: algebra_simps)

lemma vnorm_replicate: "vnorm (replicate k (c::real)) = sqrt (real k * c\<^sup>2)"
  by (simp add: vnorm_def sum_list_replicate_const)

lemma plus_state_value:
  "0 \<le> n \<Longrightarrow> plus_state n = Inr (replicate (2 ^ nat n) (1 / sqrt (2 ^ nat n)))"
  by (simp add: plus_state_def)

lemma vnorm_uniform: "vnorm (replicate (2 ^ k) (1 / sqrt (2 ^ k) :: real)) = 1"
  by (simp add: vnorm_replicate power_divide)

subsection \<open>One layer, the layer loop and the cost in closed form\<close>


lemma length_uniform [simp]: "length (uniform n) = 2 ^ nat n"
  by (simp add: uniform_def)

lemma plus_state_uniform: "0 \<le> n \<Longrightarrow> plus_state n = Inr (uniform n)"
  by (simp add: plus_state_def uniform_def)

lemma vnorm_uniform_state: "vnorm (uniform n) = 1"
  by (simp add: uniform_def vnorm_uniform)

lemma B_operator_uniform: "0 \<le> n \<Longrightarrow> B_operator n = Inr (H_operator (uniform n))"
  by (simp add: B_operator_def plus_state_uniform H_operator_def)

lemma sqnorm_cv_unit: "vnorm t = 1 \<Longrightarrow> sqnorm (cv t) = 1"
  using vnorm_cv [of t] by (simp add: vnorm_one_iff)

lemma index_pair [simp]: "index [a, b] 0 = Inr a" "index [a, b] (Suc 0) = Inr b"
  by (simp_all add: index_def)

lemma case_sum_InrD:
  "(case x of Inl e \<Rightarrow> Inl e | Inr U \<Rightarrow> f U) = Inr r \<Longrightarrow> \<exists>U. x = Inr U \<and> f U = Inr r"
  by (cases x) auto

lemma qaoa_step_projector:
  assumes n: "0 \<le> n" and lu: "length u = 2 ^ nat n" and ls: "length s = 2 ^ nat n"
    and unit: "sqnorm u = 1"
  shows "qaoa_step s (mneg (outer u (map cnj u))) n [a, b]
       = Inr (rot (cv (uniform n)) (exp (\<i> * complex_of_real b) - 1)
               (rot u (exp (\<i> * complex_of_real a) - 1) s))"
proof -
  have 1: "(case expm (smult (- \<i> * complex_of_real a) (mneg (outer u (map cnj u)))) of
            Inl e \<Rightarrow> Inl e | Inr U \<Rightarrow> dot_mv U s)
       = Inr (rot u (exp (\<i> * complex_of_real a) - 1) s)"
    by (rule propagate_rank1) (simp_all add: lu ls unit)
  define s1 where "s1 = rot u (exp (\<i> * complex_of_real a) - 1) s"
  have 2: "(case expm (smult (- \<i> * complex_of_real b) (cm (H_operator (uniform n)))) of
            Inl e \<Rightarrow> Inl e | Inr U \<Rightarrow> dot_mv U s1)
       = Inr (rot (cv (uniform n)) (exp (\<i> * complex_of_real b) - 1) s1)"
    unfolding cm_H_operator
    by (rule propagate_rank1) (simp_all add: s1_def ls sqnorm_cv_unit vnorm_uniform_state)
  from case_sum_InrD [OF 1] obtain U
    where U: "expm (smult (- \<i> * complex_of_real a) (mneg (outer u (map cnj u)))) = Inr U"
      "dot_mv U s = Inr s1"
    unfolding s1_def by blast
  from case_sum_InrD [OF 2] obtain V
    where V: "expm (smult (- \<i> * complex_of_real b) (cm (H_operator (uniform n)))) = Inr V"
      "dot_mv V s1 = Inr (rot (cv (uniform n)) (exp (\<i> * complex_of_real b) - 1) s1)"
    by blast
  show ?thesis
    unfolding s1_def [symmetric] using U V
    by (simp add: qaoa_step_def B_operator_uniform [OF n])
qed

lemma qaoa_step_real_target:
  assumes "0 \<le> n" "length t = 2 ^ nat n" "length s = 2 ^ nat n" "vnorm t = 1"
  shows "qaoa_step s (cm (H_operator t)) n [a, b]
       = Inr (rot (cv (uniform n)) (exp (\<i> * complex_of_real b) - 1)
               (rot (cv t) (exp (\<i> * complex_of_real a) - 1) s))"
  unfolding cm_H_operator
  by (rule qaoa_step_projector) (simp_all add: assms sqnorm_cv_unit)

lemma qaoa_step_projector_norm:
  assumes "0 \<le> n" "length u = 2 ^ nat n" "length s = 2 ^ nat n" "sqnorm u = 1"
  shows "\<exists>s'. qaoa_step s (mneg (outer u (map cnj u))) n [a, b] = Inr s'
            \<and> length s' = length s \<and> sqnorm s' = sqnorm s"
  unfolding qaoa_step_projector [OF assms]
  by (simp add: sqnorm_rot_phase assms sqnorm_cv_unit vnorm_uniform_state)

lemma qaoa_layers_projector:
  assumes n: "0 \<le> n" and lu: "length u = 2 ^ nat n" and unit: "sqnorm u = 1"
  shows "length s = 2 ^ nat n \<Longrightarrow> list_all (\<lambda>i. 2 * i + 1 < length params) idx \<Longrightarrow>
         \<exists>s'. qaoa_layers (mneg (outer u (map cnj u))) n params idx s = Inr s'
            \<and> length s' = length s \<and> sqnorm s' = sqnorm s"
proof (induction idx arbitrary: s)
  case Nil
  then show ?case by simp
next
  case (Cons i idx)
  from Cons.prems have i: "2 * i < length params" "2 * i + 1 < length params"
    and rest: "list_all (\<lambda>i. 2 * i + 1 < length params) idx"
    by simp_all
  obtain s1 where s1: "qaoa_step s (mneg (outer u (map cnj u))) n [params ! (2 * i), params ! (2 * i + 1)] = Inr s1"
      "length s1 = length s" "sqnorm s1 = sqnorm s"
    using qaoa_step_projector_norm [OF n lu Cons.prems(1) unit] by blast
  from Cons.IH [of s1] s1 Cons.prems(1) rest
  obtain s' where "qaoa_layers (mneg (outer u (map cnj u))) n params idx s1 = Inr s'"
      "length s' = length s1" "sqnorm s' = sqnorm s1"
    by auto
  with s1 i show ?case
    by (simp add: index_def)
qed

lemma upt_within: "2 * p \<le> m \<Longrightarrow> list_all (\<lambda>i. 2 * i + 1 < m) [0..<p]"
  by (auto simp: list_all_iff)


lemma outer_tab:
  assumes "length u = N" "length w = N"
  shows "outer u w = map (\<lambda>i. map (\<lambda>j. u ! i * w ! j) [0..<N]) [0..<N]"
proof -
  have "map (\<lambda>y. x * y) w = map (\<lambda>j. x * w ! j) [0..<N]" for x :: "'a::times"
    using map_tab [of "\<lambda>y. x * y" w] assms by simp
  then show ?thesis
    using map_tab [of "\<lambda>x. map (\<lambda>j. x * w ! j) [0..<N]" u] assms
    by (simp add: outer_def)
qed

lemma amp_bound:
  assumes "length u = length s" "sqnorm u = 1"
  shows "(cmod (amp u s))\<^sup>2 \<le> sqnorm s"
proof -
  have "0 \<le> sqnorm (rot u (- 1) s)" by (rule sqnorm_nonneg)
  also have "\<dots> = sqnorm s + (cmod (amp u s))\<^sup>2 * (2 * Re (- 1) + (cmod (- 1))\<^sup>2)"
    unfolding amp_def by (rule sqnorm_rot [OF assms])
  finally show ?thesis by simp
qed

lemma cnj_dot_projected:
  assumes len: "length u = length s"
  shows "vdot (map cnj s) (map (\<lambda>i. k * (u ! i * amp u s)) [0..<length s])
       = k * complex_of_real ((cmod (amp u s))\<^sup>2)"
proof -
  define c where "c = amp u s"
  have "vdot (map cnj s) (map (\<lambda>i. k * (u ! i * c)) [0..<length s])
      = (\<Sum>i<length s. map cnj s ! i * map (\<lambda>i. k * (u ! i * c)) [0..<length s] ! i)"
    by (simp add: vdot_sum)
  also have "\<dots> = (\<Sum>i<length s. k * c * (cnj (s ! i) * u ! i))"
    by (intro sum.cong refl) (simp add: algebra_simps)
  also have "\<dots> = k * c * (\<Sum>i<length s. cnj (s ! i) * u ! i)"
    by (simp only: sum_distrib_left)
  also have "(\<Sum>i<length s. cnj (s ! i) * u ! i) = cnj c"
    by (simp add: c_def amp_def mult.commute)
  also have "k * c * cnj c = k * complex_of_real ((cmod c)\<^sup>2)"
    by (simp only: complex_norm_square mult.assoc)
  finally show ?thesis by (simp only: c_def)
qed

lemma cnj_dot_projected_pos:
  "length u = length s \<Longrightarrow>
   vdot (map cnj s) (map (\<lambda>i. u ! i * amp u s) [0..<length s]) = complex_of_real ((cmod (amp u s))\<^sup>2)"
  using cnj_dot_projected [of u s 1] by simp

lemma cnj_dot_projected_neg:
  "length u = length s \<Longrightarrow>
   vdot (map cnj s) (map (\<lambda>i. - (u ! i * amp u s)) [0..<length s]) = - complex_of_real ((cmod (amp u s))\<^sup>2)"
  using cnj_dot_projected [of u s "- 1"] by simp

lemma dot_mv_outer:
  assumes len: "length u = length s"
  shows "dot_mv (outer u (map cnj u)) s = Inr (map (\<lambda>i. u ! i * amp u s) [0..<length s])"
proof -
  have "(\<Sum>j<length s. u ! i * map cnj u ! j * s ! j) = u ! i * amp u s" for i
  proof -
    have "(\<Sum>j<length s. u ! i * map cnj u ! j * s ! j) = (\<Sum>j<length s. u ! i * (cnj (u ! j) * s ! j))"
      by (intro sum.cong refl) (simp add: len mult.assoc)
    then show ?thesis by (simp add: amp_def sum_distrib_left)
  qed
  then show ?thesis
    using outer_tab [of u "length s" "map cnj u"] dot_mv_tab [of s "length s" "\<lambda>i j. u ! i * map cnj u ! j"]
    by (simp add: len)
qed

lemma dot_mv_mneg_outer:
  assumes len: "length u = length s"
  shows "dot_mv (mneg (outer u (map cnj u))) s = Inr (map (\<lambda>i. - (u ! i * amp u s)) [0..<length s])"
proof -
  have "(\<Sum>j<length s. - (u ! i * map cnj u ! j) * s ! j) = - (u ! i * amp u s)" for i
  proof -
    have "(\<Sum>j<length s. - (u ! i * map cnj u ! j) * s ! j) = (\<Sum>j<length s. (- (u ! i)) * (cnj (u ! j) * s ! j))"
      by (intro sum.cong refl) (simp add: len mult.assoc)
    then show ?thesis by (simp add: amp_def sum_distrib_left sum_negf)
  qed
  then show ?thesis
    using mneg_outer_tab [of u "length s" "map cnj u"] dot_mv_tab [of s "length s" "\<lambda>i j. - (u ! i * map cnj u ! j)"]
    by (simp add: len)
qed

lemma overlap_projector:
  assumes len: "length u = length s"
  shows "(case dot_mv (outer u (map cnj u)) s of Inl e \<Rightarrow> Inl e | Inr Ps \<Rightarrow>
          (case dot_vv (map cnj s) Ps of Inl e \<Rightarrow> Inl e | Inr c \<Rightarrow> Inr (Re c)))
       = Inr ((cmod (amp u s))\<^sup>2)"
  by (simp add: dot_mv_outer [OF len] dot_vv_def cnj_dot_projected_pos [OF len])

lemma cv_real: "map cnj (cv t) = cv t"
  by (simp add: cv_def)

lemma overlap_real_target:
  assumes "length t = length s"
  shows "overlap (cv t) s = Inr ((cmod (amp (cv t) s))\<^sup>2)"
  using overlap_projector [of "cv t" s] assms by (simp add: overlap_def cv_real)

lemma cost_function_projector:
  assumes n: "0 \<le> n" and lu: "length u = 2 ^ nat n" and unit: "sqnorm u = 1"
    and params: "2 * nat p \<le> length params"
  shows "\<exists>s. cost_function (mneg (outer u (map cnj u))) n p params = Inr (- ((cmod (amp u s))\<^sup>2), s)
           \<and> length s = 2 ^ nat n \<and> sqnorm s = 1"
proof -
  have s0: "length (cv (uniform n)) = 2 ^ nat n" "sqnorm (cv (uniform n)) = 1"
    by (simp_all add: sqnorm_cv_unit vnorm_uniform_state)
  obtain s where s: "qaoa_layers (mneg (outer u (map cnj u))) n params [0..<nat p] (cv (uniform n)) = Inr s"
      "length s = length (cv (uniform n))" "sqnorm s = sqnorm (cv (uniform n))"
    using qaoa_layers_projector [OF n lu unit s0(1) upt_within [OF params]] by blast
  have len: "length u = length s" using s(2) lu by simp
  have "cost_function (mneg (outer u (map cnj u))) n p params = Inr (- ((cmod (amp u s))\<^sup>2), s)"
    by (simp add: cost_function_def plus_state_uniform [OF n] s(1) dot_mv_mneg_outer [OF len]
        dot_vv_def cnj_dot_projected_neg [OF len])
  with s s0 show ?thesis by auto
qed

subsection \<open>Cost, norm and overlap\<close>

lemma amp_vdot: "length u = length s \<Longrightarrow> amp u s = vdot (map cnj u) s"
proof -
  assume l: "length u = length s"
  have "vdot (map cnj u) s = (\<Sum>k<length s. map cnj u ! k * s ! k)"
    using l by (simp add: vdot_sum)
  also have "\<dots> = amp u s"
    unfolding amp_def by (intro sum.cong refl) (simp add: l)
  finally show ?thesis by simp
qed

lemma cost_function_real_target:
  assumes "0 \<le> n" "length t = 2 ^ nat n" "vnorm t = 1" "2 * nat p \<le> length params"
  shows "\<exists>s. cost_function (cm (H_operator t)) n p params = Inr (- ((cmod (amp (cv t) s))\<^sup>2), s)
           \<and> length s = 2 ^ nat n \<and> sqnorm s = 1"
  unfolding cm_H_operator
  by (rule cost_function_projector) (simp_all add: assms sqnorm_cv_unit)

text \<open>
  C1: for \<open>n \<ge> 1\<close>, \<open>p \<ge> 1\<close>, a real target \<open>t\<close> of length \<open>2 ^ n\<close> and norm 1, and
  \<open>2 * p\<close> real angles, \<open>cost_function(H_operator(t), n, p, params)\<close> returns, and
  its first component lies between \<open>-1\<close> and \<open>0\<close>.
\<close>

theorem cost_in_unit_interval:
  fixes t :: "real list"
  assumes "1 \<le> n" and "1 \<le> p" and "length t = 2 ^ nat n" and "vnorm t = 1"
    and "length params = 2 * nat p"
  shows "\<exists>c s. cost_function (cm (H_operator t)) n p params = Inr (c, s) \<and> - 1 \<le> c \<and> c \<le> 0"
proof -
  obtain s where s: "cost_function (cm (H_operator t)) n p params = Inr (- ((cmod (amp (cv t) s))\<^sup>2), s)"
      "length s = 2 ^ nat n" "sqnorm s = 1"
    using cost_function_real_target [of n t p params] assms by auto
  have "(cmod (amp (cv t) s))\<^sup>2 \<le> sqnorm s"
    by (rule amp_bound) (simp_all add: s assms sqnorm_cv_unit)
  with s show ?thesis by simp
qed

theorem cost_in_unit_interval_witness:
  "\<exists>c s. cost_function (cm (H_operator [0, 1])) 1 1 [2, 3] = Inr (c, s) \<and> - 1 \<le> c \<and> c \<le> 0"
  using cost_in_unit_interval [of 1 1 "[0, 1]" "[2, 3]"] by (simp add: vnorm_def)

text \<open>
  C2: with the generator built from a real target of norm 1, one call of
  \<open>qaoa_step\<close> on a state of norm 1 returns a state of norm 1, and so the state
  returned by \<open>cost_function\<close> has norm 1, for every depth and all angles.
\<close>

theorem propagation_preserves_norm:
  fixes t :: "real list"
  assumes "1 \<le> n" and "length t = 2 ^ nat n" and "vnorm t = 1"
  shows "(length s = 2 ^ nat n \<and> vnorm s = 1 \<longrightarrow>
            (\<exists>s'. qaoa_step s (cm (H_operator t)) n [a, b] = Inr s' \<and> vnorm s' = 1)) \<and>
         (length params = 2 * nat p \<longrightarrow>
            (\<exists>c s'. cost_function (cm (H_operator t)) n p params = Inr (c, s') \<and> vnorm s' = 1))"
proof (intro conjI impI)
  assume s: "length s = 2 ^ nat n \<and> vnorm s = 1"
  have "\<exists>s'. qaoa_step s (mneg (outer (cv t) (map cnj (cv t)))) n [a, b] = Inr s'
            \<and> length s' = length s \<and> sqnorm s' = sqnorm s"
    by (rule qaoa_step_projector_norm) (use assms s in \<open>simp_all add: sqnorm_cv_unit\<close>)
  with s show "\<exists>s'. qaoa_step s (cm (H_operator t)) n [a, b] = Inr s' \<and> vnorm s' = 1"
    by (auto simp: cm_H_operator vnorm_one_iff)
next
  assume "length params = 2 * nat p"
  then obtain s where "cost_function (cm (H_operator t)) n p params = Inr (- ((cmod (amp (cv t) s))\<^sup>2), s)"
      "sqnorm s = 1"
    using cost_function_real_target [of n t p params] assms by auto
  then show "\<exists>c s'. cost_function (cm (H_operator t)) n p params = Inr (c, s') \<and> vnorm s' = 1"
    by (auto simp: vnorm_one_iff)
qed

theorem propagation_preserves_norm_witness:
  "(\<exists>s'. qaoa_step [0, \<i>] (cm (H_operator [0, 1])) 1 [2, 3] = Inr s' \<and> vnorm s' = 1) \<and>
   (\<exists>c s'. cost_function (cm (H_operator [0, 1])) 1 2 [2, 3, 5, 7] = Inr (c, s') \<and> vnorm s' = 1)"
  using propagation_preserves_norm [of 1 "[0, 1]" "[0, \<i>]" 2 3 "[2, 3, 5, 7]" 2]
  by (simp add: vnorm_def)

text \<open>
  C3: under the hypotheses of C1, the cost returned by \<open>cost_function\<close> is the negated
  \<open>overlap\<close> of the target with the returned state; that overlap is the squared
  magnitude of their inner product and lies between 0 and 1.
\<close>

theorem cost_is_negated_overlap:
  fixes t :: "real list"
  assumes "1 \<le> n" and "1 \<le> p" and "length t = 2 ^ nat n" and "vnorm t = 1"
    and "length params = 2 * nat p"
  shows "\<exists>c s f. cost_function (cm (H_operator t)) n p params = Inr (c, s) \<and>
           overlap (cv t) s = Inr f \<and> c = - f \<and>
           f = (cmod (vdot (map cnj (cv t)) s))\<^sup>2 \<and> 0 \<le> f \<and> f \<le> 1"
proof -
  obtain s where s: "cost_function (cm (H_operator t)) n p params = Inr (- ((cmod (amp (cv t) s))\<^sup>2), s)"
      "length s = 2 ^ nat n" "sqnorm s = 1"
    using cost_function_real_target [of n t p params] assms by auto
  have len: "length (cv t) = length s" by (simp add: s assms)
  have "(cmod (amp (cv t) s))\<^sup>2 \<le> sqnorm s"
    by (rule amp_bound) (simp_all add: s assms sqnorm_cv_unit)
  moreover have "overlap (cv t) s = Inr ((cmod (amp (cv t) s))\<^sup>2)"
    by (rule overlap_real_target) (use len in simp)
  ultimately show ?thesis
    using s amp_vdot [OF len] by simp
qed

theorem cost_is_negated_overlap_witness:
  "\<exists>c s f. cost_function (cm (H_operator [0, 1])) 1 1 [2, 3] = Inr (c, s) \<and>
           overlap (cv [0, 1]) s = Inr f \<and> c = - f \<and>
           f = (cmod (vdot (map cnj (cv [0, 1])) s))\<^sup>2 \<and> 0 \<le> f \<and> f \<le> 1"
  using cost_is_negated_overlap [of 1 1 "[0, 1]" "[2, 3]"] by (simp add: vnorm_def)

subsection \<open>The layer loop reads a prefix of the angles; the driver generator\<close>


lemma index_take: "k < m \<Longrightarrow> index (take m xs) k = index xs k"
  by (simp add: index_def)

lemma qaoa_layers_cong:
  "list_all (\<lambda>i. index ps (2 * i) = index qs (2 * i) \<and> index ps (2 * i + 1) = index qs (2 * i + 1)) idx
   \<Longrightarrow> qaoa_layers H n ps idx s = qaoa_layers H n qs idx s"
proof (induction idx arbitrary: s)
  case Nil
  show ?case by simp
next
  case (Cons i idx)
  then show ?case by (simp split: sum.splits)
qed

lemma qaoa_layers_prefix:
  assumes "take (2 * p) ps = take (2 * p) qs"
  shows "qaoa_layers H n ps [0..<p] s = qaoa_layers H n qs [0..<p] s"
proof (rule qaoa_layers_cong)
  have "index ps k = index qs k" if "k < 2 * p" for k
    using index_take [OF that, of ps] index_take [OF that, of qs] assms by simp
  then show "list_all (\<lambda>i. index ps (2 * i) = index qs (2 * i) \<and> index ps (2 * i + 1) = index qs (2 * i + 1)) [0..<p]"
    by (simp add: list_all_iff)
qed

lemma F_layers_cong:
  "list_all (\<lambda>i. index ps (2 * i) = index qs (2 * i) \<and> index ps (2 * i + 1) = index qs (2 * i + 1)) idx
   \<Longrightarrow> F_layers t n ps idx s = F_layers t n qs idx s"
proof (induction idx arbitrary: s)
  case Nil
  show ?case by simp
next
  case (Cons i idx)
  then show ?case by (simp split: sum.splits)
qed

lemma F_layers_prefix:
  assumes "take (2 * p) ps = take (2 * p) qs"
  shows "F_layers t n ps [0..<p] s = F_layers t n qs [0..<p] s"
proof (rule F_layers_cong)
  have "index ps k = index qs k" if "k < 2 * p" for k
    using index_take [OF that, of ps] index_take [OF that, of qs] assms by simp
  then show "list_all (\<lambda>i. index ps (2 * i) = index qs (2 * i) \<and> index ps (2 * i + 1) = index qs (2 * i + 1)) [0..<p]"
    by (simp add: list_all_iff)
qed

text \<open>
  C10: \<open>cost_function\<close> (and \<open>F_function\<close> of the QIT notebook) reads only the first
  \<open>2 * p\<close> angles. Two angle sequences with the same first \<open>2 * p\<close> entries give the
  same result (the same cost and state, or the same error), and entries appended to a
  sequence of length \<open>2 * p\<close> change nothing, so they cause no error.
\<close>

theorem cost_function_reads_prefix:
  "(take (2 * nat p) ps = take (2 * nat p) qs \<longrightarrow>
      cost_function H n p ps = cost_function H n p qs \<and> F_function t n p ps = F_function t n p qs) \<and>
   (length ps = 2 * nat p \<longrightarrow>
      cost_function H n p (ps @ extra) = cost_function H n p ps \<and>
      F_function t n p (ps @ extra) = F_function t n p ps)"
proof (intro conjI impI)
  assume "take (2 * nat p) ps = take (2 * nat p) qs"
  then show "cost_function H n p ps = cost_function H n p qs"
    by (simp add: cost_function_def qaoa_layers_prefix [of "nat p" ps qs] split: sum.splits)
next
  assume "take (2 * nat p) ps = take (2 * nat p) qs"
  then show "F_function t n p ps = F_function t n p qs"
    by (simp add: F_function_def F_layers_prefix [of "nat p" ps qs])
next
  assume "length ps = 2 * nat p"
  then have "take (2 * nat p) (ps @ extra) = take (2 * nat p) ps" by simp
  then show "cost_function H n p (ps @ extra) = cost_function H n p ps"
    by (simp add: cost_function_def qaoa_layers_prefix [of "nat p" "ps @ extra" ps] split: sum.splits)
next
  assume "length ps = 2 * nat p"
  then have "take (2 * nat p) (ps @ extra) = take (2 * nat p) ps" by simp
  then show "F_function t n p (ps @ extra) = F_function t n p ps"
    by (simp add: F_function_def F_layers_prefix [of "nat p" "ps @ extra" ps])
qed

theorem cost_function_reads_prefix_witness:
  "cost_function (cm (H_operator [0, 1])) 1 1 [2, 3, 5] = cost_function (cm (H_operator [0, 1])) 1 1 [2, 3, 7, 11] \<and>
   F_function [0, 1] 1 1 [2, 3, 5] = F_function [0, 1] 1 1 [2, 3, 7, 11] \<and>
   cost_function (cm (H_operator [0, 1])) 1 1 ([2, 3] @ [5]) = cost_function (cm (H_operator [0, 1])) 1 1 [2, 3] \<and>
   F_function [0, 1] 1 1 ([2, 3] @ [5]) = F_function [0, 1] 1 1 [2, 3]"
  using cost_function_reads_prefix [of 1 "[2, 3, 5]" "[2, 3, 7, 11]" "cm (H_operator [0, 1])" 1 "[0, 1]"]
    cost_function_reads_prefix [of 1 "[2, 3]" "[2, 3]" "cm (H_operator [0, 1])" 1 "[0, 1]" "[5]"]
  by simp

text \<open>
  C6, as the code has it: \<open>qaoa_step\<close> has no parameter for the driver generator. It
  builds \<open>B_operator(n_qubits)\<close> itself on every call (a TypeError for a negative
  \<open>n_qubits\<close>), and its result is the specification's propagator with the supplied
  \<open>H\<close> as \<open>G1\<close> and that matrix as \<open>G2\<close>: \<open>exp(-i b B) exp(-i a H) s\<close>.
\<close>

theorem qaoa_step_rebuilds_driver:
  "(n < 0 \<longrightarrow> qaoa_step s G1 n [a, b] = Inl TypeError) \<and>
   (\<forall>B. B_operator n = Inr B \<longrightarrow> qaoa_step s G1 n [a, b] = propagator_spec s G1 (cm B) a b)"
  by (auto simp: qaoa_step_def propagator_spec_def B_operator_def plus_state_def split: sum.splits)


lemma rot_pair:
  "rot [p0, p1] z [s0, s1]
     = [s0 + z * (cnj p0 * s0 + cnj p1 * s1) * p0, s1 + z * (cnj p0 * s0 + cnj p1 * s1) * p1]"
  by (simp add: rot_def numeral_2_eq_2 lessThan_Suc upt_rec)

lemma uniform_one: "cv (uniform 1) = [1 / complex_of_real (sqrt 2), 1 / complex_of_real (sqrt 2)]"
  by (simp add: uniform_def cv_def numeral_2_eq_2)

lemma sqrt2_sq: "complex_of_real (sqrt 2) * complex_of_real (sqrt 2) = 2"
  by (simp flip: of_real_mult)

lemma propagator_spec_projectors:
  assumes "length u = length s" "sqnorm u = 1" "length v = length s" "sqnorm v = 1"
  shows "propagator_spec s (mneg (outer u (map cnj u))) (mneg (outer v (map cnj v))) a b
       = Inr (rot v (exp (\<i> * complex_of_real b) - 1) (rot u (exp (\<i> * complex_of_real a) - 1) s))"
proof -
  define s1 where "s1 = rot u (exp (\<i> * complex_of_real a) - 1) s"
  have 1: "(case expm (smult (- \<i> * complex_of_real a) (mneg (outer u (map cnj u)))) of
            Inl e \<Rightarrow> Inl e | Inr U \<Rightarrow> dot_mv U s) = Inr s1"
    unfolding s1_def by (rule propagate_rank1) (simp_all add: assms)
  have 2: "(case expm (smult (- \<i> * complex_of_real b) (mneg (outer v (map cnj v)))) of
            Inl e \<Rightarrow> Inl e | Inr U \<Rightarrow> dot_mv U s1)
       = Inr (rot v (exp (\<i> * complex_of_real b) - 1) s1)"
    by (rule propagate_rank1) (simp_all add: s1_def assms)
  from case_sum_InrD [OF 1] obtain U
    where U: "expm (smult (- \<i> * complex_of_real a) (mneg (outer u (map cnj u)))) = Inr U"
      "dot_mv U s = Inr s1"
    by blast
  from case_sum_InrD [OF 2] obtain V
    where V: "expm (smult (- \<i> * complex_of_real b) (mneg (outer v (map cnj v)))) = Inr V"
      "dot_mv V s1 = Inr (rot v (exp (\<i> * complex_of_real b) - 1) s1)"
    by blast
  show ?thesis
    unfolding s1_def [symmetric] using U V by (simp add: propagator_spec_def)
qed

lemma sqnorm_pair: "sqnorm [x, y] = (cmod x)\<^sup>2 + (cmod y)\<^sup>2"
  by (simp add: sqnorm_def numeral_2_eq_2 lessThan_Suc)

text \<open>
  C6 as stated fails: with \<open>n = 1\<close>, state \<open>[1, 0]\<close>, angles \<open>(0, pi)\<close> and the
  projector generator of \<open>[1, 0]\<close> as both \<open>G1\<close> and \<open>G2\<close>, the specification's
  propagator gives \<open>[-1, 0]\<close>, and \<open>qaoa_step\<close>, which uses the uniform state's
  generator, gives \<open>[0, -1]\<close>.
\<close>

theorem qaoa_step_ignores_supplied_driver:
  "qaoa_step [1, 0] (cm (H_operator [1, 0])) 1 [0, pi] = Inr [0, - 1] \<and>
   propagator_spec [1, 0] (cm (H_operator [1, 0])) (cm (H_operator [1, 0])) 0 pi = Inr [- 1, 0]"
proof
  have "qaoa_step [1, 0] (cm (H_operator [1, 0])) 1 [0, pi]
      = Inr (rot (cv (uniform 1)) (exp (\<i> * complex_of_real pi) - 1)
               (rot (cv [1, 0]) (exp (\<i> * complex_of_real 0) - 1) [1, 0]))"
    by (rule qaoa_step_real_target) (simp_all add: vnorm_def)
  also have "\<dots> = Inr [0, - 1]"
    unfolding uniform_one by (simp add: cv_def rot_pair sqrt2_sq)
  finally show "qaoa_step [1, 0] (cm (H_operator [1, 0])) 1 [0, pi] = Inr [0, - 1]" .
  have "propagator_spec [1, 0] (mneg (outer (cv [1, 0]) (map cnj (cv [1, 0]))))
          (mneg (outer (cv [1, 0]) (map cnj (cv [1, 0])))) 0 pi
      = Inr (rot (cv [1, 0]) (exp (\<i> * complex_of_real pi) - 1)
               (rot (cv [1, 0]) (exp (\<i> * complex_of_real 0) - 1) [1, 0]))"
    by (rule propagator_spec_projectors) (simp_all add: cv_def sqnorm_pair)
  also have "\<dots> = Inr [- 1, 0]"
    by (simp add: cv_def rot_pair)
  finally show "propagator_spec [1, 0] (cm (H_operator [1, 0])) (cm (H_operator [1, 0])) 0 pi = Inr [- 1, 0]"
    by (simp only: cm_H_operator)
qed

theorem qaoa_step_rebuilds_driver_witness:
  "qaoa_step [1, 0] (cm (H_operator [1, 0])) 1 [0, pi]
     = propagator_spec [1, 0] (cm (H_operator [1, 0])) (cm (H_operator (uniform 1))) 0 pi"
  using qaoa_step_rebuilds_driver [of 1 "[1, 0]" "cm (H_operator [1, 0])" 0 pi]
  by (simp add: B_operator_uniform)

subsection \<open>The generators\<close>


lemma amp_self: "amp u u = complex_of_real (sqnorm u)"
  using amp_vdot [of u u] vdot_sum [of "map cnj u" u] cnj_dot_self [of u] by simp

lemma H_operator_shape:
  "length (H_operator v) = length v \<and> list_all (\<lambda>r. length r = length v) (H_operator v)"
  by (simp add: H_operator_def mneg_def outer_def list_all_iff)

lemma H_operator_hermitian:
  fixes v :: "real list"
  assumes "i < length v" "j < length v"
  shows "cm (H_operator v) ! i ! j = cnj (cm (H_operator v) ! j ! i)"
  using assms by (simp add: cm_def H_operator_def mneg_def outer_def mult.commute)

lemma H_operator_eigenvector:
  assumes "sqnorm u = 1"
  shows "dot_mv (mneg (outer u (map cnj u))) u = Inr (map uminus u)"
proof -
  have "map (\<lambda>i. - (u ! i * amp u u)) [0..<length u] = map uminus u"
    by (rule nth_equalityI) (simp_all add: amp_self assms)
  then show ?thesis
    using dot_mv_mneg_outer [of u u] by simp
qed

lemma H_operator_spectrum:
  assumes unit: "sqnorm u = 1" and len: "length x = length u" and nz: "x \<noteq> replicate (length u) 0"
    and eig: "dot_mv (mneg (outer u (map cnj u))) x = Inr (map (\<lambda>y. l * y) x)"
  shows "l = 0 \<or> (l = - 1 \<and> x = map (\<lambda>y. amp u x * y) u)"
proof (cases "l = 0")
  case True
  then show ?thesis by simp
next
  case False
  define c where "c = amp u x"
  have "map (\<lambda>i. - (u ! i * c)) [0..<length x] = map (\<lambda>y. l * y) x"
    using dot_mv_mneg_outer [of u x] len eig by (simp add: c_def)
  then have e: "- (u ! i * c) = l * x ! i" if "i < length u" for i
    using that len by (metis (no_types, lifting) add_0 diff_zero length_upt nth_map nth_upt)
  then have xi: "x ! i = - (c / l) * u ! i" if "i < length u" for i
    using that False by (simp add: field_simps)
  have "c = (\<Sum>j<length u. cnj (u ! j) * x ! j)"
    by (simp add: c_def amp_def len)
  also have "\<dots> = (\<Sum>j<length u. - (c / l) * (cnj (u ! j) * u ! j))"
    by (intro sum.cong refl) (simp add: xi)
  also have "\<dots> = - (c / l) * amp u u"
    by (simp only: amp_def sum_distrib_left)
  also have "\<dots> = - (c / l)"
    by (simp add: amp_self unit)
  finally have cl: "c = - (c / l)" .
  have cnz: "c \<noteq> 0"
  proof
    assume "c = 0"
    then have "x ! i = 0" if "i < length u" for i using xi [OF that] by simp
    then have "x = replicate (length u) 0"
      by (intro nth_equalityI) (simp_all add: len)
    with nz show False by contradiction
  qed
  from cl False have "c * l = - c"
    by (simp add: field_simps)
  then have "c * (l + 1) = 0"
    by (simp add: algebra_simps)
  with cnz have "l + 1 = 0" by simp
  then have l: "l = - 1"
    by (simp add: eq_neg_iff_add_eq_0)
  have "x = map (\<lambda>y. c * y) u"
    by (rule nth_equalityI) (simp_all add: len xi l)
  with l show ?thesis by (simp add: c_def)
qed


text \<open>
  C4, as the code has it: for a real vector \<open>v\<close> of norm 1 and length \<open>N\<close>,
  \<open>H_operator(v)\<close> is an \<open>N \<times> N\<close> matrix, the negated outer product of \<open>v\<close> with
  its conjugate, Hermitian, with \<open>H v = - v\<close>; every eigenvector of a nonzero
  eigenvalue is a multiple of \<open>v\<close> and its eigenvalue is \<open>-1\<close>, so all other
  eigenvalues are 0. \<open>B_operator(n)\<close> is \<open>H_operator\<close> of the uniform state, a real
  vector of norm 1 and length \<open>2 ^ n\<close>.
\<close>

theorem generator_of_real_unit_vector:
  fixes v :: "real list"
  assumes "vnorm v = 1" and "length v = N"
  shows "length (H_operator v) = N \<and> list_all (\<lambda>r. length r = N) (H_operator v) \<and>
         cm (H_operator v) = mneg (outer (cv v) (map cnj (cv v))) \<and>
         (\<forall>i<N. \<forall>j<N. cm (H_operator v) ! i ! j = cnj (cm (H_operator v) ! j ! i)) \<and>
         dot_mv (cm (H_operator v)) (cv v) = Inr (map uminus (cv v)) \<and>
         (\<forall>x l. length x = N \<and> x \<noteq> replicate N 0 \<and>
                dot_mv (cm (H_operator v)) x = Inr (map (\<lambda>y. l * y) x)
                \<longrightarrow> l = 0 \<or> (l = - 1 \<and> x = map (\<lambda>y. amp (cv v) x * y) (cv v))) \<and>
         (\<forall>n u. plus_state n = Inr u \<longrightarrow>
                B_operator n = Inr (H_operator u) \<and> vnorm u = 1 \<and> length u = 2 ^ nat n)"
proof (intro conjI allI impI)
  show "length (H_operator v) = N" "list_all (\<lambda>r. length r = N) (H_operator v)"
    using H_operator_shape [of v] assms by simp_all
  show "cm (H_operator v) = mneg (outer (cv v) (map cnj (cv v)))"
    by (rule cm_H_operator)
  show "cm (H_operator v) ! i ! j = cnj (cm (H_operator v) ! j ! i)" if "i < N" "j < N" for i j
    using that assms by (intro H_operator_hermitian) simp_all
  show "dot_mv (cm (H_operator v)) (cv v) = Inr (map uminus (cv v))"
    unfolding cm_H_operator by (rule H_operator_eigenvector) (simp add: assms sqnorm_cv_unit)
  show "l = 0 \<or> (l = - 1 \<and> x = map (\<lambda>y. amp (cv v) x * y) (cv v))"
    if "length x = N \<and> x \<noteq> replicate N 0 \<and> dot_mv (cm (H_operator v)) x = Inr (map (\<lambda>y. l * y) x)"
    for x l
    using that assms H_operator_spectrum [of "cv v" x l]
    by (simp add: cm_H_operator sqnorm_cv_unit)
  show "B_operator n = Inr (H_operator u)" "vnorm u = 1" "length u = 2 ^ nat n"
    if "plus_state n = Inr u" for n u
    using that vnorm_uniform [of "nat n"]
    by (auto simp: B_operator_def H_operator_def plus_state_def split: if_splits)
qed

theorem generator_of_real_unit_vector_witness:
  "cm (H_operator [0, 1]) = mneg (outer (cv [0, 1]) (map cnj (cv [0, 1]))) \<and>
   dot_mv (cm (H_operator [0, 1])) (cv [0, 1]) = Inr (map uminus (cv [0, 1])) \<and>
   B_operator 1 = Inr (H_operator (replicate 2 (1 / sqrt 2)))"
proof -
  have h: "vnorm [0, 1 :: real] = 1" "length [0, 1 :: real] = 2"
    by (simp_all add: vnorm_def)
  have p: "plus_state 1 = Inr (replicate 2 (1 / sqrt 2))"
    by (simp add: plus_state_def)
  from generator_of_real_unit_vector [OF h] p show ?thesis by blast
qed

text \<open>
  C4 as stated fails for a complex vector: \<open>np.outer\<close> does not conjugate. For
  \<open>v = [i, 0]\<close>, of norm 1, \<open>H_operator(v)\<close> has the entry \<open>1\<close> where the negated outer
  product with the conjugate has \<open>-1\<close>, and \<open>H v = v\<close>: the eigenvalue of \<open>v\<close> is
  \<open>1\<close>, not \<open>-1\<close>.
\<close>

theorem H_operator_complex_not_conjugated:
  "vnorm [\<i>, 0] = 1 \<and>
   H_operator [\<i>, 0] = [[1, 0], [0, 0]] \<and>
   mneg (outer [\<i>, 0] (map cnj [\<i>, 0])) = [[- 1, 0], [0, 0]] \<and>
   dot_mv (H_operator [\<i>, 0]) [\<i>, 0] = Inr [\<i>, 0]"
  by (simp add: vnorm_def H_operator_def mneg_def outer_def dot_mv_def vdot_def)

subsection \<open>The QIT notebook and the depth sweep\<close>


lemma tensor_replicate: "tensor (replicate k a) (replicate m b) = replicate (k * m) (a * b)"
  by (induction k) (simp_all add: tensor_def replicate_add)

lemma plus_ket_replicate: "plus_ket = replicate 2 (1 / complex_of_real (sqrt 2))"
  by (simp add: plus_ket_def numeral_2_eq_2)

lemma tensor_power_plus:
  "((\<lambda>state. tensor state plus_ket) ^^ k) plus_ket
     = replicate (2 ^ Suc k) ((1 / complex_of_real (sqrt 2)) ^ Suc k)"
proof (induction k)
  case 0
  show ?case by (simp add: plus_ket_replicate)
next
  case (Suc k)
  have "((\<lambda>state. tensor state plus_ket) ^^ Suc k) plus_ket
      = tensor (replicate (2 ^ Suc k) ((1 / complex_of_real (sqrt 2)) ^ Suc k)) (replicate 2 (1 / complex_of_real (sqrt 2)))"
    using Suc by (simp add: plus_ket_replicate)
  also have "\<dots> = replicate (2 ^ Suc (Suc k)) ((1 / complex_of_real (sqrt 2)) ^ Suc (Suc k))"
    unfolding tensor_replicate by (simp add: mult.commute)
  finally show ?case .
qed

lemma cv_uniform:
  "cv (uniform n) = replicate (2 ^ nat n) ((1 / complex_of_real (sqrt 2)) ^ nat n)"
  by (simp add: cv_def uniform_def real_sqrt_power power_divide)

lemma initial_state_uniform: "1 \<le> n \<Longrightarrow> initial_state n = cv (uniform n)"
proof -
  assume n: "1 \<le> n"
  then have "Suc (nat (n - 1)) = nat n" by simp
  then show ?thesis
    unfolding initial_state_def tensor_power_plus cv_uniform by simp
qed

lemma smult_minus_one: "smult (- 1) M = mneg M"
  by (simp add: smult_def mneg_def)

lemma C_operator_projector: "C_operator t n = mneg (outer t (map cnj t))"
  by (simp add: C_operator_def projector_def smult_minus_one)

lemma B_operator_qit_uniform: "1 \<le> n \<Longrightarrow> B_operator_qit n = cm (H_operator (uniform n))"
  by (simp add: B_operator_qit_def projector_def smult_minus_one initial_state_uniform cm_H_operator)

lemma qaoa_step_qit_eq:
  assumes "1 \<le> n"
  shows "qaoa_step_qit s t n ps = qaoa_step s (C_operator t n) n ps"
proof -
  have "0 \<le> n" using assms by simp
  then show ?thesis
    by (simp add: qaoa_step_qit_def qaoa_step_def propagate_def B_operator_uniform
        B_operator_qit_uniform [OF assms] split: sum.splits)
qed

lemma F_layers_eq:
  assumes "1 \<le> n"
  shows "F_layers t n ps idx s = qaoa_layers (C_operator t n) n ps idx s"
  by (induction idx arbitrary: s) (simp_all add: qaoa_step_qit_eq [OF assms] split: sum.splits)

lemma F_function_eq:
  assumes "1 \<le> n"
  shows "F_function t n p ps = cost_function (C_operator t n) n p ps"
proof -
  have "plus_state n = Inr (uniform n)" using assms by (simp add: plus_state_uniform)
  then show ?thesis
    by (simp add: F_function_def cost_function_def F_layers_eq [OF assms]
        initial_state_uniform [OF assms] ev_def split: sum.splits)
qed

lemma F_function_closed:
  assumes "1 \<le> n" "length t = 2 ^ nat n" "sqnorm t = 1" "2 * nat p \<le> length ps"
  shows "\<exists>s. F_function t n p ps = Inr (- ((cmod (amp t s))\<^sup>2), s)
           \<and> length s = 2 ^ nat n \<and> sqnorm s = 1"
  unfolding F_function_eq [OF assms(1)] C_operator_projector
  by (rule cost_function_projector) (use assms in simp_all)

lemma fidelity_amp: "length t = length s \<Longrightarrow> fidelity t s = Inr (cmod (amp t s))"
  by (simp add: fidelity_def dot_vv_def amp_vdot)


lemma sweep_loop_snoc:
  "sweep_loop opt t n (xs @ [i]) st =
     (case sweep_loop opt t n xs st of Inl e \<Rightarrow> Inl e | Inr st' \<Rightarrow> sweep_body opt t n i st')"
  by (induction xs arbitrary: st) (simp_all split: sum.splits)

lemma upto_snoc: "[1..int (Suc k)] = [1..int k] @ [int (Suc k)]"
  using upto_rec2 [of 1 "int (Suc k)"] by simp

lemma get_params_well_behaved:
  assumes wb: "well_behaved opt" and n: "1 \<le> n" and lt: "length t = 2 ^ nat n" and unit: "sqnorm t = 1"
    and w: "length w = 2 * nat p"
  shows "\<exists>x. opt (objective t n p) w (bounds p) = Inr x \<and> length x = 2 * nat p
           \<and> get_params opt t n p w = Inr x"
proof -
  have "\<not> isl (objective t n p x)" if lx: "length x = length w" for x
  proof -
    have "2 * nat p \<le> length x" using lx w by simp
    then obtain s where "F_function t n p x = Inr (- ((cmod (amp t s))\<^sup>2), s)"
      using F_function_closed [OF n lt unit, of p x] by auto
    then show ?thesis by (simp add: objective_def)
  qed
  with wb obtain x where x: "opt (objective t n p) w (bounds p) = Inr x" "length x = length w"
    unfolding well_behaved_def by blast
  have "map (\<lambda>i. x ! i) [0..<2 * nat p] = x"
    using x(2) w map_nth [of x] by simp
  with x w show ?thesis by (simp add: get_params_def)
qed

lemma sweep_body_well_behaved:
  assumes wb: "well_behaved opt" and n: "1 \<le> n" and lt: "length t = 2 ^ nat n" and unit: "sqnorm t = 1"
    and w: "length (running_params st) = 2 * nat p"
  shows "\<exists>x c s. get_params opt t n p (running_params st) = Inr x \<and> length x = 2 * nat p \<and>
           F_function t n p x = Inr (c, s) \<and> c = - ((cmod (vdot (map cnj t) s))\<^sup>2) \<and>
           sweep_body opt t n p st =
             Inr \<lparr>running_params = x @ [0, 0],
                  qaoa_approximation = qaoa_approximation st @ [(cmod (vdot (map cnj t) s))\<^sup>2],
                  p_array = p_array st @ [p],
                  printed = printed st @ [c]\<rparr>"
proof -
  obtain x where x: "length x = 2 * nat p" "get_params opt t n p (running_params st) = Inr x"
    using get_params_well_behaved [OF wb n lt unit w] by blast
  obtain s where s: "F_function t n p x = Inr (- ((cmod (amp t s))\<^sup>2), s)" "length s = 2 ^ nat n"
    using F_function_closed [OF n lt unit, of p x] x by auto
  have len: "length t = length s" using s lt by simp
  have "fidelity t s = Inr (cmod (amp t s))" by (rule fidelity_amp [OF len])
  with x s show ?thesis
    by (simp add: sweep_body_def amp_vdot [OF len])
qed


lemma sweep_invariant:
  assumes wb: "well_behaved opt" and n: "1 \<le> n" and lt: "length t = 2 ^ nat n" and unit: "sqnorm t = 1"
  shows "\<exists>st. sweep_loop opt t n [1..int k] sweep_init = Inr st \<and>
           warm_start opt t n k = Inr (running_params st) \<and>
           length (running_params st) = 2 * Suc k \<and>
           p_array st = [1..int k] \<and>
           length (qaoa_approximation st) = k \<and> length (printed st) = k \<and>
           (\<forall>j<k. \<exists>w x c s. warm_start opt t n j = Inr w \<and>
                     get_params opt t n (int (Suc j)) w = Inr x \<and>
                     F_function t n (int (Suc j)) x = Inr (c, s) \<and>
                     qaoa_approximation st ! j = (cmod (vdot (map cnj t) s))\<^sup>2 \<and>
                     warm_start opt t n (Suc j) = Inr (x @ [0, 0]) \<and>
                     length x = 2 * Suc j \<and> printed st ! j = c \<and>
                     c = - qaoa_approximation st ! j)"
proof (induction k)
  case 0
  show ?case by (simp add: sweep_init_def)
next
  case (Suc k)
  then obtain st where st: "sweep_loop opt t n [1..int k] sweep_init = Inr st"
      "warm_start opt t n k = Inr (running_params st)"
      "length (running_params st) = 2 * Suc k"
      "p_array st = [1..int k]"
      "length (qaoa_approximation st) = k" "length (printed st) = k"
      and old: "\<forall>j<k. \<exists>w x c s. warm_start opt t n j = Inr w \<and>
                     get_params opt t n (int (Suc j)) w = Inr x \<and>
                     F_function t n (int (Suc j)) x = Inr (c, s) \<and>
                     qaoa_approximation st ! j = (cmod (vdot (map cnj t) s))\<^sup>2 \<and>
                     warm_start opt t n (Suc j) = Inr (x @ [0, 0]) \<and>
                     length x = 2 * Suc j \<and> printed st ! j = c \<and>
                     c = - qaoa_approximation st ! j"
    by blast
  have w: "length (running_params st) = 2 * nat (int (Suc k))" using st(3) by simp
  obtain x c s where b: "get_params opt t n (int (Suc k)) (running_params st) = Inr x"
      "length x = 2 * nat (int (Suc k))"
      "F_function t n (int (Suc k)) x = Inr (c, s)"
      "c = - ((cmod (vdot (map cnj t) s))\<^sup>2)"
      "sweep_body opt t n (int (Suc k)) st =
             Inr \<lparr>running_params = x @ [0, 0],
                  qaoa_approximation = qaoa_approximation st @ [(cmod (vdot (map cnj t) s))\<^sup>2],
                  p_array = p_array st @ [int (Suc k)],
                  printed = printed st @ [c]\<rparr>"
    using sweep_body_well_behaved [OF wb n lt unit w] by blast
  define st' where "st' = \<lparr>running_params = x @ [0, 0],
                  qaoa_approximation = qaoa_approximation st @ [(cmod (vdot (map cnj t) s))\<^sup>2],
                  p_array = p_array st @ [int (Suc k)],
                  printed = printed st @ [c]\<rparr>"
  have loop: "sweep_loop opt t n [1..int (Suc k)] sweep_init = Inr st'"
    unfolding upto_snoc sweep_loop_snoc st(1) st'_def using b(5) by simp
  have ws: "warm_start opt t n (Suc k) = Inr (x @ [0, 0])"
    by (simp add: st(2) b(1) del: of_nat_Suc)
  have "\<exists>w x c s. warm_start opt t n j = Inr w \<and>
                     get_params opt t n (int (Suc j)) w = Inr x \<and>
                     F_function t n (int (Suc j)) x = Inr (c, s) \<and>
                     qaoa_approximation st' ! j = (cmod (vdot (map cnj t) s))\<^sup>2 \<and>
                     warm_start opt t n (Suc j) = Inr (x @ [0, 0]) \<and>
                     length x = 2 * Suc j \<and> printed st' ! j = c \<and>
                     c = - qaoa_approximation st' ! j" if "j < Suc k" for j
  proof (cases "j < k")
    case True
    with old st(5,6) show ?thesis by (simp add: st'_def nth_append del: of_nat_Suc warm_start.simps)
  next
    case False
    with that have "j = k" by simp
    with st(2,5,6) b ws show ?thesis by (simp add: st'_def nth_append del: of_nat_Suc warm_start.simps)
  qed
  with loop ws st b(2) show ?case
    by (intro exI [of _ st']) (simp add: st'_def upto_snoc del: of_nat_Suc warm_start.simps)
qed


text \<open>
  C5: for \<open>P \<ge> 1\<close> and a fixed target of norm 1, \<open>calc_n_p\<close> returns the depths
  \<open>1..P\<close> and one fidelity for each. At depth \<open>j + 1\<close> the optimizer is called with the
  running angle vector \<open>w\<close> as starting point, the recorded value is the squared
  magnitude of the inner product of the target with the final state of \<open>F_function\<close>
  at the optimized angles \<open>x\<close>, and the running vector for the next depth is \<open>x\<close> with
  two zeros appended.
\<close>

theorem calc_n_p_warm_started:
  assumes "well_behaved basinhopping" and "1 \<le> n" and "length t = 2 ^ nat n" and "vnorm t = 1"
    and "1 \<le> P"
  shows "\<exists>st. calc_sweep basinhopping t n P = Inr st \<and>
           calc_n_p basinhopping t n P = Inr (qaoa_approximation st, p_array st) \<and>
           p_array st = [1..P] \<and> length (qaoa_approximation st) = nat P \<and>
           warm_start basinhopping t n (nat P) = Inr (running_params st) \<and>
           (\<forall>j<nat P. \<exists>w x c s. warm_start basinhopping t n j = Inr w \<and>
                     get_params basinhopping t n (int (Suc j)) w = Inr x \<and>
                     F_function t n (int (Suc j)) x = Inr (c, s) \<and>
                     qaoa_approximation st ! j = (cmod (vdot (map cnj t) s))\<^sup>2 \<and>
                     warm_start basinhopping t n (Suc j) = Inr (x @ [0, 0]))"
proof -
  have unit: "sqnorm t = 1" using assms(4) by (simp add: vnorm_one_iff)
  have P: "int (nat P) = P" using assms(5) by simp
  from sweep_invariant [OF assms(1,2,3) unit, of "nat P"]
  show ?thesis
    unfolding P calc_n_p_def calc_sweep_def by fastforce
qed

lemma well_behaved_identity: "well_behaved (\<lambda>f x0 b. Inr x0)"
  by (simp add: well_behaved_def)

theorem calc_n_p_warm_started_witness:
  "\<exists>st :: sweep. calc_n_p (\<lambda>f x0 b. Inr x0) [1, 0] 1 2 = Inr (qaoa_approximation st, p_array st) \<and>
        p_array st = [1..2] \<and> length (qaoa_approximation st) = nat 2"
proof -
  have h: "(1::int) \<le> 1" "length [1, 0 :: complex] = 2 ^ nat 1" "vnorm [1, 0 :: complex] = 1" "(1::int) \<le> 2"
    by (simp_all add: vnorm_def)
  from calc_n_p_warm_started [OF well_behaved_identity h] show ?thesis
    by blast
qed

subsection \<open>The depth sweep keeps what the optimizer returns\<close>


lemma rot_zero: "rot \<psi> 0 s = s"
  by (simp add: rot_def map_nth)

lemma qaoa_layers_append:
  "qaoa_layers H n ps (xs @ ys) s =
     (case qaoa_layers H n ps xs s of Inl e \<Rightarrow> Inl e | Inr s' \<Rightarrow> qaoa_layers H n ps ys s')"
  by (induction xs arbitrary: s) (simp_all split: sum.splits)

lemma qaoa_step_zero_angles:
  assumes "0 \<le> n" "length u = 2 ^ nat n" "length s = 2 ^ nat n" "sqnorm u = 1"
  shows "qaoa_step s (mneg (outer u (map cnj u))) n [0, 0] = Inr s"
  using qaoa_step_projector [OF assms, of 0 0] by (simp add: rot_zero)

lemma cost_function_zero_pad:
  assumes n: "0 \<le> n" and lu: "length u = 2 ^ nat n" and unit: "sqnorm u = 1"
    and p: "0 \<le> p" and lx: "length x = 2 * nat p"
  shows "cost_function (mneg (outer u (map cnj u))) n (p + 1) (x @ [0, 0])
       = cost_function (mneg (outer u (map cnj u))) n p x"
proof -
  let ?H = "mneg (outer u (map cnj u))"
  have s0: "length (cv (uniform n)) = 2 ^ nat n" by simp
  obtain s where s: "qaoa_layers ?H n x [0..<nat p] (cv (uniform n)) = Inr s" "length s = 2 ^ nat n"
    using qaoa_layers_projector [OF n lu unit s0, of x "[0..<nat p]"] upt_within [of "nat p" "length x"] lx
    by auto
  have pre: "qaoa_layers ?H n (x @ [0, 0]) [0..<nat p] (cv (uniform n)) = Inr s"
    using qaoa_layers_prefix [of "nat p" "x @ [0, 0]" x ?H n "cv (uniform n)"] lx s(1) by simp
  have idx: "index (x @ [0, 0]) (2 * nat p) = Inr 0" "index (x @ [0, 0]) (Suc (2 * nat p)) = Inr 0"
    using lx by (simp_all add: index_def nth_append)
  have "nat (p + 1) = Suc (nat p)" using p by simp
  then have "qaoa_layers ?H n (x @ [0, 0]) [0..<nat (p + 1)] (cv (uniform n)) = Inr s"
    by (simp add: qaoa_layers_append pre idx qaoa_step_zero_angles [OF n lu s(2) unit])
  with s(1) show ?thesis
    by (simp add: cost_function_def plus_state_uniform [OF n])
qed

lemma objective_zero_pad:
  assumes "1 \<le> n" "length t = 2 ^ nat n" "sqnorm t = 1" "0 \<le> p" "length x = 2 * nat p"
  shows "objective t n (p + 1) (x @ [0, 0]) = objective t n p x"
proof -
  have "0 \<le> n" using assms(1) by simp
  from cost_function_zero_pad [OF this assms(2,3,4,5)] show ?thesis
    by (simp add: objective_def F_function_eq [OF assms(1)] C_operator_projector)
qed

lemma get_params_is_optimizer_output:
  assumes "well_behaved opt" "1 \<le> n" "length t = 2 ^ nat n" "sqnorm t = 1"
    "length w = 2 * nat p" "get_params opt t n p w = Inr x"
  shows "opt (objective t n p) w (bounds p) = Inr x"
  using get_params_well_behaved [OF assms(1-5)] assms(6) by auto

lemma sweep_costs_monotone:
  assumes wb: "well_behaved opt" and nw: "never_worse opt"
    and n: "1 \<le> n" and lt: "length t = 2 ^ nat n" and unit: "sqnorm t = 1"
    and loop: "sweep_loop opt t n [1..int k] sweep_init = Inr st" and j: "Suc j < k"
  shows "printed st ! Suc j \<le> printed st ! j \<and> qaoa_approximation st ! j \<le> qaoa_approximation st ! Suc j"
proof -
  from sweep_invariant [OF wb n lt unit, of k] loop
  have inv: "\<forall>j<k. \<exists>w x c s. warm_start opt t n j = Inr w \<and>
                     get_params opt t n (int (Suc j)) w = Inr x \<and>
                     F_function t n (int (Suc j)) x = Inr (c, s) \<and>
                     qaoa_approximation st ! j = (cmod (vdot (map cnj t) s))\<^sup>2 \<and>
                     warm_start opt t n (Suc j) = Inr (x @ [0, 0]) \<and>
                     length x = 2 * Suc j \<and> printed st ! j = c \<and>
                     c = - qaoa_approximation st ! j"
    by auto
  from inv j obtain w0 x0 c0 s0 where a: "warm_start opt t n j = Inr w0"
      "get_params opt t n (int (Suc j)) w0 = Inr x0"
      "F_function t n (int (Suc j)) x0 = Inr (c0, s0)"
      "warm_start opt t n (Suc j) = Inr (x0 @ [0, 0])"
      "length x0 = 2 * Suc j" "printed st ! j = c0" "c0 = - qaoa_approximation st ! j"
    by (metis Suc_lessD)
  from inv j obtain w1 x1 c1 s1 where b: "warm_start opt t n (Suc j) = Inr w1"
      "get_params opt t n (int (Suc (Suc j))) w1 = Inr x1"
      "F_function t n (int (Suc (Suc j))) x1 = Inr (c1, s1)"
      "printed st ! Suc j = c1" "c1 = - qaoa_approximation st ! Suc j"
    by metis
  have w1: "w1 = x0 @ [0, 0]" using a(4) b(1) by simp
  have lw: "length w1 = 2 * nat (int (Suc (Suc j)))" using w1 a(5) by simp
  have out: "opt (objective t n (int (Suc (Suc j)))) w1 (bounds (int (Suc (Suc j)))) = Inr x1"
    by (rule get_params_is_optimizer_output [OF wb n lt unit lw b(2)])
  have zp: "objective t n (int (Suc j) + 1) (x0 @ [0, 0]) = objective t n (int (Suc j)) x0"
    by (rule objective_zero_pad [OF n lt unit]) (simp_all add: a(5))
  have e: "int (Suc (Suc j)) = int (Suc j) + 1" by simp
  have "objective t n (int (Suc j)) x0 = Inr c0"
    by (simp add: objective_def a(3) del: of_nat_Suc)
  then have start: "objective t n (int (Suc (Suc j))) w1 = Inr c0"
    unfolding w1 e zp .
  from nw out start obtain c where "objective t n (int (Suc (Suc j))) x1 = Inr c" "c \<le> c0"
    unfolding never_worse_def by blast
  then have "c1 \<le> c0" by (simp add: objective_def b(3) del: of_nat_Suc)
  with a(6,7) b(4,5) show ?thesis by simp
qed


lemma cost_function_from_layers:
  assumes "0 \<le> n"
    and "qaoa_layers (mneg (outer u (map cnj u))) n ps [0..<nat p] (cv (uniform n)) = Inr s"
    and len: "length u = length s"
  shows "cost_function (mneg (outer u (map cnj u))) n p ps = Inr (- ((cmod (amp u s))\<^sup>2), s)"
  by (simp add: cost_function_def plus_state_uniform assms dot_mv_mneg_outer [OF len]
      dot_vv_def cnj_dot_projected_neg [OF len])

lemma amp_pair: "amp [p0, p1] [s0, s1] = cnj p0 * s0 + cnj p1 * s1"
  by (simp add: amp_def numeral_2_eq_2 lessThan_Suc)

lemma exp_i_half_pi: "exp (\<i> * complex_of_real (0.5 * pi)) = \<i>"
proof -
  have "0.5 * pi = pi / 2" by simp
  then show ?thesis using cis_pi_half by (simp add: cis_conv_exp)
qed

lemma rot_target_half_pi:
  "rot [1, 0] (\<i> - 1) [1 / complex_of_real (sqrt 2), 1 / complex_of_real (sqrt 2)]
     = [\<i> / complex_of_real (sqrt 2), 1 / complex_of_real (sqrt 2)]"
  by (simp add: rot_pair field_simps)

lemma rot_uniform_half_pi:
  "rot [1 / complex_of_real (sqrt 2), 1 / complex_of_real (sqrt 2)] (\<i> - 1)
       [\<i> / complex_of_real (sqrt 2), 1 / complex_of_real (sqrt 2)]
     = [(\<i> - 1) / complex_of_real (sqrt 2), 0]"
proof -
  define c where "c = complex_of_real (sqrt 2)"
  have cc: "c * c = 2" and cj: "cnj c = c" and c0: "c \<noteq> 0"
    by (simp_all add: c_def sqrt2_sq)
  have inner: "cnj (1 / c) * (\<i> / c) + cnj (1 / c) * (1 / c) = (\<i> + 1) / 2"
    using cc c0 by (simp add: cj field_simps)
  have "(\<i> - 1) * ((\<i> + 1) / 2) = - 1"
    by (simp add: field_simps)
  then have z: "(\<i> - 1) * (cnj (1 / c) * (\<i> / c) + cnj (1 / c) * (1 / c)) = - 1"
    by (simp only: inner)
  have "rot [1 / c, 1 / c] (\<i> - 1) [\<i> / c, 1 / c] = [\<i> / c + (- 1) * (1 / c), 1 / c + (- 1) * (1 / c)]"
    unfolding rot_pair z ..
  also have "\<dots> = [(\<i> - 1) / c, 0]"
    by (simp add: diff_divide_distrib)
  finally show ?thesis unfolding c_def .
qed

lemma F_function_depth_one:
  "F_function [1, 0] 1 1 [0.5 * pi, 0.5 * pi] = Inr (- 1, [(\<i> - 1) / complex_of_real (sqrt 2), 0])"
proof -
  let ?H = "mneg (outer [1, 0] (map cnj [1, 0 :: complex]))"
  let ?s = "[(\<i> - 1) / complex_of_real (sqrt 2), 0]"
  have step: "qaoa_step (cv (uniform 1)) ?H 1 [0.5 * pi, 0.5 * pi] = Inr ?s"
  proof -
    have "qaoa_step (cv (uniform 1)) ?H 1 [0.5 * pi, 0.5 * pi]
        = Inr (rot (cv (uniform 1)) (exp (\<i> * complex_of_real (0.5 * pi)) - 1)
               (rot [1, 0] (exp (\<i> * complex_of_real (0.5 * pi)) - 1) (cv (uniform 1))))"
      by (rule qaoa_step_projector) (simp_all add: sqnorm_pair)
    also have "\<dots> = Inr ?s"
      unfolding uniform_one exp_i_half_pi rot_target_half_pi rot_uniform_half_pi ..
    finally show ?thesis .
  qed
  have "qaoa_layers ?H 1 [0.5 * pi, 0.5 * pi] [0..<nat 1] (cv (uniform 1)) = Inr ?s"
    using step by (simp add: index_def)
  then have "cost_function ?H 1 1 [0.5 * pi, 0.5 * pi] = Inr (- ((cmod (amp [1, 0] ?s))\<^sup>2), ?s)"
    by (intro cost_function_from_layers) simp_all
  moreover have "(cmod (amp [1, 0] ?s))\<^sup>2 = 1"
    by (simp add: amp_pair norm_divide cmod_power2 power_divide)
  ultimately show ?thesis
    by (simp add: F_function_eq C_operator_projector)
qed

lemma F_function_depth_two_zeros:
  "F_function [1, 0] 1 2 [0, 0, 0, 0]
     = Inr (- (1 / 2), [1 / complex_of_real (sqrt 2), 1 / complex_of_real (sqrt 2)])"
proof -
  let ?H = "mneg (outer [1, 0] (map cnj [1, 0 :: complex]))"
  let ?s = "[1 / complex_of_real (sqrt 2), 1 / complex_of_real (sqrt 2)]"
  have step: "qaoa_step ?s ?H 1 [0, 0] = Inr ?s"
    by (rule qaoa_step_zero_angles) (simp_all add: sqnorm_pair)
  have "[0..<nat 2] = [0, 1]" by (simp add: upt_rec)
  then have "qaoa_layers ?H 1 [0, 0, 0, 0] [0..<nat 2] (cv (uniform 1)) = Inr ?s"
    using step by (simp add: index_def uniform_one)
  then have "cost_function ?H 1 2 [0, 0, 0, 0] = Inr (- ((cmod (amp [1, 0] ?s))\<^sup>2), ?s)"
    by (intro cost_function_from_layers) simp_all
  moreover have "(cmod (amp [1, 0] ?s))\<^sup>2 = 1 / 2"
    by (simp add: amp_pair norm_divide power_divide)
  ultimately show ?thesis
    by (simp add: F_function_eq C_operator_projector)
qed


lemma sweep_body_records_output:
  assumes "sweep_body opt t n i st = Inr st'"
  shows "\<exists>x c s. get_params opt t n i (running_params st) = Inr x \<and>
           F_function t n i x = Inr (c, s) \<and>
           running_params st' = x @ [0, 0] \<and> printed st' = printed st @ [c]"
  using assms by (auto simp: sweep_body_def split: sum.splits)

text \<open>
  C8, as the code has it: the loop body has no fallback. Whatever the optimizer
  returns for a depth becomes, with two zeros appended, the next running vector, and
  its cost is the one printed. A worse-than-previous result is kept out only by the
  optimizer: appending two zero angles leaves the cost unchanged, so when the optimizer
  never returns a point worse than its starting point, the printed costs never increase
  and the recorded fidelities never decrease from one depth to the next.
\<close>

theorem sweep_has_no_fallback:
  "(\<forall>st st'. sweep_body opt t n i st = Inr st' \<longrightarrow>
      (\<exists>x c s. get_params opt t n i (running_params st) = Inr x \<and>
         F_function t n i x = Inr (c, s) \<and>
         running_params st' = x @ [0, 0] \<and> printed st' = printed st @ [c])) \<and>
   (well_behaved opt \<and> never_worse opt \<and> 1 \<le> n \<and> length t = 2 ^ nat n \<and> vnorm t = 1 \<and> 1 \<le> P \<longrightarrow>
      (\<exists>st. calc_sweep opt t n P = Inr st \<and>
         (\<forall>j. Suc j < nat P \<longrightarrow>
            printed st ! Suc j \<le> printed st ! j \<and>
            qaoa_approximation st ! j \<le> qaoa_approximation st ! Suc j)))"
proof (intro conjI allI impI)
  fix st st'
  assume "sweep_body opt t n i st = Inr st'"
  then show "\<exists>x c s. get_params opt t n i (running_params st) = Inr x \<and>
         F_function t n i x = Inr (c, s) \<and>
         running_params st' = x @ [0, 0] \<and> printed st' = printed st @ [c]"
    by (rule sweep_body_records_output)
next
  assume h: "well_behaved opt \<and> never_worse opt \<and> 1 \<le> n \<and> length t = 2 ^ nat n \<and> vnorm t = 1 \<and> 1 \<le> P"
  then have wb: "well_behaved opt" and nw: "never_worse opt" and n: "1 \<le> n"
    and lt: "length t = 2 ^ nat n" and unit: "sqnorm t = 1" and P: "int (nat P) = P"
    by (simp_all add: vnorm_one_iff)
  obtain st where st: "sweep_loop opt t n [1..int (nat P)] sweep_init = Inr st"
    using sweep_invariant [OF wb n lt unit, of "nat P"] by blast
  have "printed st ! Suc j \<le> printed st ! j \<and> qaoa_approximation st ! j \<le> qaoa_approximation st ! Suc j"
    if "Suc j < nat P" for j
    by (rule sweep_costs_monotone [OF wb nw n lt unit st that])
  with st show "\<exists>st. calc_sweep opt t n P = Inr st \<and>
         (\<forall>j. Suc j < nat P \<longrightarrow>
            printed st ! Suc j \<le> printed st ! j \<and>
            qaoa_approximation st ! j \<le> qaoa_approximation st ! Suc j)"
    unfolding calc_sweep_def P by blast
qed

lemma never_worse_identity: "never_worse (\<lambda>f x0 b. Inr x0)"
  by (simp add: never_worse_def)

theorem sweep_has_no_fallback_witness:
  "\<exists>st :: sweep. calc_sweep (\<lambda>f x0 b. Inr x0) [1, 0] 1 2 = Inr st \<and>
      printed st ! Suc 0 \<le> printed st ! 0 \<and>
      qaoa_approximation st ! 0 \<le> qaoa_approximation st ! Suc 0"
proof -
  have h: "well_behaved (\<lambda>f x0 b. Inr x0) \<and> never_worse (\<lambda>f x0 b. Inr x0) \<and> (1::int) \<le> 1 \<and>
      length [1, 0 :: complex] = 2 ^ nat 1 \<and> vnorm [1, 0 :: complex] = 1 \<and> (1::int) \<le> 2"
    by (simp add: well_behaved_identity never_worse_identity vnorm_def)
  have j: "Suc 0 < nat 2" by simp
  from sweep_has_no_fallback [of "\<lambda>f x0 b. Inr x0" "[1, 0]" 1 _ 2] h j show ?thesis
    by blast
qed

lemma upto_one_two: "[1..2::int] = [1, 2]"
  by (simp add: upto.simps)

text \<open>
  C8 as stated fails: with one qubit, target \<open>[1, 0]\<close> and an optimizer that returns
  the all-zero angles at depth 2, the sweep records the fidelity \<open>1/2\<close> and the cost
  \<open>-1/2\<close> at depth 2 after \<open>1\<close> and \<open>-1\<close> at depth 1, and the running vector is
  the zero vector, although the previous angles padded with zeros have the cost \<open>-1\<close>.
\<close>

theorem stalled_optimizer_result_is_recorded:
  "calc_sweep stalled_optimizer [1, 0] 1 2 =
     Inr \<lparr>running_params = [0, 0, 0, 0, 0, 0], qaoa_approximation = [1, 1 / 2],
          p_array = [1, 2], printed = [- 1, - (1 / 2)]\<rparr> \<and>
   F_function [1, 0] 1 2 [0.5 * pi, 0.5 * pi, 0, 0] = Inr (- 1, [(\<i> - 1) / complex_of_real (sqrt 2), 0])"
proof
  have g1: "get_params stalled_optimizer [1, 0] 1 1 [0.5 * pi, 0.5 * pi] = Inr [0.5 * pi, 0.5 * pi]"
    by (simp add: get_params_def stalled_optimizer_def upt_rec numeral_2_eq_2)
  have "cmod (\<i> - 1) = sqrt 2"
    by (simp add: cmod_def)
  then have f1: "fidelity [1, 0] [(\<i> - 1) / complex_of_real (sqrt 2), 0] = Inr 1"
    by (simp add: fidelity_def dot_vv_def vdot_def norm_divide)
  have b1: "sweep_body stalled_optimizer [1, 0] 1 1 sweep_init =
      Inr \<lparr>running_params = [0.5 * pi, 0.5 * pi, 0, 0], qaoa_approximation = [1],
           p_array = [1], printed = [- 1]\<rparr>"
    using g1 F_function_depth_one f1 by (simp add: sweep_body_def sweep_init_def)
  have g2: "get_params stalled_optimizer [1, 0] 1 2 [0.5 * pi, 0.5 * pi, 0, 0] = Inr [0, 0, 0, 0]"
    by (simp add: get_params_def stalled_optimizer_def upt_rec numeral_eq_Suc)
  have f2: "fidelity [1, 0] [1 / complex_of_real (sqrt 2), 1 / complex_of_real (sqrt 2)] = Inr (1 / sqrt 2)"
    by (simp add: fidelity_def dot_vv_def vdot_def norm_divide)
  have half: "(1 / sqrt 2)\<^sup>2 = 1 / 2"
    by (simp add: power_divide)
  have b2: "sweep_body stalled_optimizer [1, 0] 1 2
        \<lparr>running_params = [0.5 * pi, 0.5 * pi, 0, 0], qaoa_approximation = [1],
           p_array = [1], printed = [- 1]\<rparr> =
      Inr \<lparr>running_params = [0, 0, 0, 0, 0, 0], qaoa_approximation = [1, 1 / 2],
          p_array = [1, 2], printed = [- 1, - (1 / 2)]\<rparr>"
    using half g2 F_function_depth_two_zeros f2 by (simp add: sweep_body_def)
  show "calc_sweep stalled_optimizer [1, 0] 1 2 =
     Inr \<lparr>running_params = [0, 0, 0, 0, 0, 0], qaoa_approximation = [1, 1 / 2],
          p_array = [1, 2], printed = [- 1, - (1 / 2)]\<rparr>"
    using b1 b2 by (simp add: calc_sweep_def upto_one_two)
  have "F_function [1, 0] 1 (1 + 1) ([0.5 * pi, 0.5 * pi] @ [0, 0]) = F_function [1, 0] 1 1 [0.5 * pi, 0.5 * pi]"
    unfolding F_function_eq [of 1, simplified] C_operator_projector
    by (rule cost_function_zero_pad) (simp_all add: sqnorm_pair)
  then show "F_function [1, 0] 1 2 [0.5 * pi, 0.5 * pi, 0, 0] = Inr (- 1, [(\<i> - 1) / complex_of_real (sqrt 2), 0])"
    using F_function_depth_one by simp
qed

subsection \<open>No array of the caller is written\<close>

lemma get_vec_append: "r < length \<sigma> \<Longrightarrow> get_vec (\<sigma> @ new) r = get_vec \<sigma> r"
  by (simp add: get_vec_def nth_append)

lemma get_mat_append: "r < length \<sigma> \<Longrightarrow> get_mat (\<sigma> @ new) r = get_mat \<sigma> r"
  by (simp add: get_mat_def nth_append)

lemma get_vec_InrD: "get_vec \<sigma> r = Inr v \<Longrightarrow> r < length \<sigma> \<and> \<sigma> ! r = Vec v"
  by (auto simp: get_vec_def split: if_splits array.splits)

lemma get_mat_InrD: "get_mat \<sigma> r = Inr m \<Longrightarrow> r < length \<sigma> \<and> \<sigma> ! r = Mat m"
  by (auto simp: get_mat_def split: if_splits array.splits)

lemma get_vec_last [simp]: "get_vec (\<sigma> @ [Vec v]) (length \<sigma>) = Inr v"
  by (simp add: get_vec_def)

lemma get_mat_last [simp]: "get_mat (\<sigma> @ [Mat m]) (length \<sigma>) = Inr m"
  by (simp add: get_mat_def)

lemma qaoa_step_ref_sim:
  assumes sv: "get_vec \<sigma> sr = Inr state" and hm: "get_mat \<sigma> Hr = Inr H"
  shows "(\<forall>e. qaoa_step state H n ps = Inl e \<longrightarrow> qaoa_step_ref \<sigma> sr Hr n ps = Inl e) \<and>
         (\<forall>out. qaoa_step state H n ps = Inr out \<longrightarrow>
            (\<exists>new. qaoa_step_ref \<sigma> sr Hr n ps = Inr (\<sigma> @ new @ [Vec out], length \<sigma> + length new)))"
proof -
  have v: "sr < length \<sigma>" "Hr < length \<sigma>"
    using get_vec_InrD [OF sv] get_mat_InrD [OF hm] by simp_all
  have r1: "get_vec (\<sigma> @ new) sr = Inr state" "get_mat (\<sigma> @ new) Hr = Inr H" for new
    using v sv hm by (simp_all add: get_vec_append get_mat_append)
  have r2: "get_mat (\<sigma> @ [Mat B, Vec x]) (length \<sigma>) = Inr B" for B x
    using get_mat_append [of "length \<sigma>" "\<sigma> @ [Mat B]" "[Vec x]"] by simp
  have r3: "get_vec (\<sigma> @ [Mat B, Vec x]) (Suc (length \<sigma>)) = Inr x" for B x
    using get_vec_last [of "\<sigma> @ [Mat B]" x] by simp
  note D = qaoa_step_ref_def qaoa_step_def alloc_def r1 r2 r3
  show ?thesis
  proof (cases "B_operator n")
    case (Inl e)
    then show ?thesis by (simp add: D)
  next
    case B: (Inr Bm)
    show ?thesis
    proof (cases "index ps 0")
      case (Inl e)
      with B show ?thesis by (simp add: D)
    next
      case a: (Inr a)
      show ?thesis
      proof (cases "expm (smult (- \<i> * complex_of_real a) H)")
        case (Inl e)
        with B a show ?thesis by (simp add: D)
      next
        case U: (Inr U)
        show ?thesis
        proof (cases "dot_mv U state")
          case (Inl e)
          with B a U show ?thesis by (simp add: D)
        next
          case mid: (Inr mid)
          show ?thesis
          proof (cases "index ps 1")
            case (Inl e)
            with B a U mid show ?thesis by (simp add: D)
          next
            case b: (Inr b)
            show ?thesis
            proof (cases "expm (smult (- \<i> * complex_of_real b) (cm Bm))")
              case (Inl e)
              with B a U mid b show ?thesis by (simp add: D)
            next
              case V: (Inr V)
              show ?thesis
              proof (cases "dot_mv V mid")
                case (Inl e)
                with B a U mid b V show ?thesis by (simp add: D)
              next
                case out: (Inr out)
                have "qaoa_step_ref \<sigma> sr Hr n ps
                    = Inr (\<sigma> @ [Mat (cm Bm), Vec mid] @ [Vec out], length \<sigma> + length [Mat (cm Bm), Vec mid])"
                  using B a U mid b V out by (simp add: D)
                then have "\<exists>new. qaoa_step_ref \<sigma> sr Hr n ps
                    = Inr (\<sigma> @ new @ [Vec out], length \<sigma> + length new)"
                  by (rule exI [of _ "[Mat (cm Bm), Vec mid]"])
                moreover have "qaoa_step state H n ps = Inr out"
                  using B a U mid b V out by (simp add: D)
                ultimately show ?thesis by simp
              qed
            qed
          qed
        qed
      qed
    qed
  qed
qed


lemma qaoa_layers_ref_sim:
  assumes hm: "get_mat \<sigma> Hr = Inr H"
  shows "get_vec \<sigma> sr = Inr state \<Longrightarrow>
         (\<forall>e. qaoa_layers H n ps idx state = Inl e \<longrightarrow> qaoa_layers_ref Hr n ps idx (\<sigma>, sr) = Inl e) \<and>
         (\<forall>out. qaoa_layers H n ps idx state = Inr out \<longrightarrow>
            (\<exists>new r. qaoa_layers_ref Hr n ps idx (\<sigma>, sr) = Inr (\<sigma> @ new, r) \<and>
               get_vec (\<sigma> @ new) r = Inr out \<and> (r = sr \<or> length \<sigma> \<le> r)))"
  using hm
proof (induction idx arbitrary: \<sigma> sr state)
  case Nil
  then show ?case by simp
next
  case (Cons i idx)
  note sv = Cons.prems(1) and hm = Cons.prems(2)
  show ?case
  proof (cases "index ps (2 * i)")
    case (Inl e)
    then show ?thesis by simp
  next
    case a: (Inr a)
    show ?thesis
    proof (cases "index ps (2 * i + 1)")
      case (Inl e)
      with a show ?thesis by simp
    next
      case b: (Inr b)
      show ?thesis
      proof (cases "qaoa_step state H n [a, b]")
        case (Inl e)
        then have "qaoa_step_ref \<sigma> sr Hr n [a, b] = Inl e"
          using qaoa_step_ref_sim [OF sv hm, of n "[a, b]"] by simp
        with a b Inl show ?thesis by simp
      next
        case s1: (Inr s1)
        then obtain new1 where st: "qaoa_step_ref \<sigma> sr Hr n [a, b]
            = Inr (\<sigma> @ new1 @ [Vec s1], length \<sigma> + length new1)"
          using qaoa_step_ref_sim [OF sv hm, of n "[a, b]"] by auto
        define \<sigma>1 where "\<sigma>1 = \<sigma> @ new1 @ [Vec s1]"
        define r1 where "r1 = length \<sigma> + length new1"
        have v1: "get_vec \<sigma>1 r1 = Inr s1"
          using get_vec_last [of "\<sigma> @ new1" s1] by (simp add: \<sigma>1_def r1_def)
        have h1: "get_mat \<sigma>1 Hr = Inr H"
          using hm get_mat_InrD [OF hm] by (simp add: \<sigma>1_def get_mat_append)
        note IH = Cons.IH [OF v1 h1]
        have unfold: "qaoa_layers_ref Hr n ps (i # idx) (\<sigma>, sr) = qaoa_layers_ref Hr n ps idx (\<sigma>1, r1)"
          using a b st by (simp add: \<sigma>1_def r1_def)
        have unfold': "qaoa_layers H n ps (i # idx) state = qaoa_layers H n ps idx s1"
          using a b s1 by simp
        show ?thesis
        proof (intro conjI allI impI)
          fix e assume "qaoa_layers H n ps (i # idx) state = Inl e"
          with IH show "qaoa_layers_ref Hr n ps (i # idx) (\<sigma>, sr) = Inl e"
            by (simp only: unfold unfold')
        next
          fix out assume "qaoa_layers H n ps (i # idx) state = Inr out"
          with IH obtain new r where r: "qaoa_layers_ref Hr n ps idx (\<sigma>1, r1) = Inr (\<sigma>1 @ new, r)"
              "get_vec (\<sigma>1 @ new) r = Inr out" "r = r1 \<or> length \<sigma>1 \<le> r"
            unfolding unfold' by blast
          have "qaoa_layers_ref Hr n ps (i # idx) (\<sigma>, sr) = Inr (\<sigma> @ (new1 @ [Vec s1] @ new), r)"
            unfolding unfold using r(1) by (simp add: \<sigma>1_def)
          moreover have "get_vec (\<sigma> @ (new1 @ [Vec s1] @ new)) r = Inr out"
            using r(2) by (simp add: \<sigma>1_def)
          moreover have "length \<sigma> \<le> r"
            using r(3) by (auto simp: \<sigma>1_def r1_def)
          ultimately show "\<exists>new r. qaoa_layers_ref Hr n ps (i # idx) (\<sigma>, sr) = Inr (\<sigma> @ new, r) \<and>
               get_vec (\<sigma> @ new) r = Inr out \<and> (r = sr \<or> length \<sigma> \<le> r)"
            by blast
        qed
      qed
    qed
  qed
qed


lemma cost_function_ref_sim:
  assumes hm: "get_mat \<sigma> Hr = Inr H"
  shows "(\<forall>e. cost_function H n p ps = Inl e \<longrightarrow> cost_function_ref \<sigma> Hr n p ps = Inl e) \<and>
         (\<forall>c out. cost_function H n p ps = Inr (c, out) \<longrightarrow>
            (\<exists>new r. cost_function_ref \<sigma> Hr n p ps = Inr (\<sigma> @ new, c, r) \<and>
               length \<sigma> \<le> r \<and> get_vec (\<sigma> @ new) r = Inr out))"
proof (cases "plus_state n")
  case (Inl e)
  then show ?thesis by (simp add: cost_function_def cost_function_ref_def)
next
  case s0: (Inr s0)
  define \<sigma>0 where "\<sigma>0 = \<sigma> @ [Vec (cv s0)]"
  have v0: "get_vec \<sigma>0 (length \<sigma>) = Inr (cv s0)" by (simp add: \<sigma>0_def)
  have h0: "get_mat \<sigma>0 Hr = Inr H"
    using hm get_mat_InrD [OF hm] by (simp add: \<sigma>0_def get_mat_append)
  note sim = qaoa_layers_ref_sim [OF h0 v0, of n ps "[0..<nat p]"]
  have al: "alloc \<sigma> (Vec (cv s0)) = (\<sigma>0, length \<sigma>)" by (simp add: alloc_def \<sigma>0_def)
  show ?thesis
  proof (cases "qaoa_layers H n ps [0..<nat p] (cv s0)")
    case (Inl e)
    with sim have "qaoa_layers_ref Hr n ps [0..<nat p] (\<sigma>0, length \<sigma>) = Inl e" by simp
    with Inl s0 show ?thesis by (simp add: cost_function_def cost_function_ref_def al)
  next
    case s: (Inr s)
    with sim obtain new r where r: "qaoa_layers_ref Hr n ps [0..<nat p] (\<sigma>0, length \<sigma>) = Inr (\<sigma>0 @ new, r)"
        "get_vec (\<sigma>0 @ new) r = Inr s" "r = length \<sigma> \<or> length \<sigma>0 \<le> r"
      by blast
    have hf: "get_mat (\<sigma>0 @ new) Hr = Inr H"
      using h0 get_mat_InrD [OF h0] by (simp add: get_mat_append)
    have len: "length \<sigma> \<le> r" using r(3) by (auto simp: \<sigma>0_def)
    have eq: "\<sigma>0 @ new = \<sigma> @ ([Vec (cv s0)] @ new)" by (simp add: \<sigma>0_def)
    show ?thesis
    proof (cases "dot_mv H s")
      case (Inl e)
      with s0 s r hf show ?thesis by (simp add: cost_function_def cost_function_ref_def al)
    next
      case Hs: (Inr Hs)
      show ?thesis
      proof (cases "dot_vv (map cnj s) Hs")
        case (Inl e)
        with s0 s r hf Hs show ?thesis by (simp add: cost_function_def cost_function_ref_def al)
      next
        case c: (Inr c)
        have pure: "cost_function H n p ps = Inr (Re c, s)"
          using s0 s Hs c by (simp add: cost_function_def)
        have "cost_function_ref \<sigma> Hr n p ps = Inr (\<sigma> @ ([Vec (cv s0)] @ new), Re c, r)"
          using s0 r hf Hs c by (simp add: cost_function_ref_def al eq)
        moreover have "get_vec (\<sigma> @ ([Vec (cv s0)] @ new)) r = Inr s"
          using r(2) by (simp only: eq)
        ultimately have "\<exists>new r. cost_function_ref \<sigma> Hr n p ps = Inr (\<sigma> @ new, Re c, r) \<and>
               length \<sigma> \<le> r \<and> get_vec (\<sigma> @ new) r = Inr s"
          using len by blast
        with pure show ?thesis by simp
      qed
    qed
  qed
qed

text \<open>
  C9: a call of \<open>qaoa_step\<close> or \<open>cost_function\<close> on references fails exactly when
  the function on values fails, and otherwise returns a store in which every array of
  the caller's store, the state and the generator passed in among them, is unchanged,
  together with a reference to a new array, not in the caller's store, that holds the
  resulting state.
\<close>

theorem calls_leave_arguments_unchanged:
  assumes "get_vec \<sigma> sr = Inr state" and "get_mat \<sigma> Hr = Inr H"
  shows "(\<forall>e. qaoa_step state H n ps = Inl e \<longrightarrow> qaoa_step_ref \<sigma> sr Hr n ps = Inl e) \<and>
         (\<forall>out. qaoa_step state H n ps = Inr out \<longrightarrow>
            (\<exists>\<sigma>' r. qaoa_step_ref \<sigma> sr Hr n ps = Inr (\<sigma>', r) \<and>
               (\<forall>a<length \<sigma>. \<sigma>' ! a = \<sigma> ! a) \<and> get_vec \<sigma>' sr = Inr state \<and>
               length \<sigma> \<le> r \<and> get_vec \<sigma>' r = Inr out)) \<and>
         (\<forall>e. cost_function H n p ps = Inl e \<longrightarrow> cost_function_ref \<sigma> Hr n p ps = Inl e) \<and>
         (\<forall>c out. cost_function H n p ps = Inr (c, out) \<longrightarrow>
            (\<exists>\<sigma>' r. cost_function_ref \<sigma> Hr n p ps = Inr (\<sigma>', c, r) \<and>
               (\<forall>a<length \<sigma>. \<sigma>' ! a = \<sigma> ! a) \<and> get_mat \<sigma>' Hr = Inr H \<and>
               length \<sigma> \<le> r \<and> get_vec \<sigma>' r = Inr out))"
proof (intro conjI allI impI)
  fix e assume "qaoa_step state H n ps = Inl e"
  then show "qaoa_step_ref \<sigma> sr Hr n ps = Inl e"
    using qaoa_step_ref_sim [OF assms, of n ps] by simp
next
  fix out assume "qaoa_step state H n ps = Inr out"
  then obtain new where st: "qaoa_step_ref \<sigma> sr Hr n ps = Inr (\<sigma> @ new @ [Vec out], length \<sigma> + length new)"
    using qaoa_step_ref_sim [OF assms, of n ps] by auto
  have "get_vec (\<sigma> @ new @ [Vec out]) sr = Inr state"
    using assms(1) get_vec_InrD [OF assms(1)] by (simp add: get_vec_append)
  moreover have "get_vec (\<sigma> @ new @ [Vec out]) (length \<sigma> + length new) = Inr out"
    using get_vec_last [of "\<sigma> @ new" out] by simp
  moreover have "\<forall>a<length \<sigma>. (\<sigma> @ new @ [Vec out]) ! a = \<sigma> ! a"
    by (simp add: nth_append)
  ultimately show "\<exists>\<sigma>' r. qaoa_step_ref \<sigma> sr Hr n ps = Inr (\<sigma>', r) \<and>
               (\<forall>a<length \<sigma>. \<sigma>' ! a = \<sigma> ! a) \<and> get_vec \<sigma>' sr = Inr state \<and>
               length \<sigma> \<le> r \<and> get_vec \<sigma>' r = Inr out"
    using st by (intro exI [of _ "\<sigma> @ new @ [Vec out]"] exI [of _ "length \<sigma> + length new"]) simp
next
  fix e assume "cost_function H n p ps = Inl e"
  then show "cost_function_ref \<sigma> Hr n p ps = Inl e"
    using cost_function_ref_sim [OF assms(2), of n p ps] by simp
next
  fix c out assume "cost_function H n p ps = Inr (c, out)"
  then obtain new r where st: "cost_function_ref \<sigma> Hr n p ps = Inr (\<sigma> @ new, c, r)"
      "length \<sigma> \<le> r" "get_vec (\<sigma> @ new) r = Inr out"
    using cost_function_ref_sim [OF assms(2), of n p ps] by blast
  have "get_mat (\<sigma> @ new) Hr = Inr H"
    using assms(2) get_mat_InrD [OF assms(2)] by (simp add: get_mat_append)
  moreover have "\<forall>a<length \<sigma>. (\<sigma> @ new) ! a = \<sigma> ! a"
    by (simp add: nth_append)
  ultimately show "\<exists>\<sigma>' r. cost_function_ref \<sigma> Hr n p ps = Inr (\<sigma>', c, r) \<and>
               (\<forall>a<length \<sigma>. \<sigma>' ! a = \<sigma> ! a) \<and> get_mat \<sigma>' Hr = Inr H \<and>
               length \<sigma> \<le> r \<and> get_vec \<sigma>' r = Inr out"
    using st by (intro exI [of _ "\<sigma> @ new"] exI [of _ r]) simp
qed

theorem calls_leave_arguments_unchanged_witness:
  "\<exists>\<sigma>' r. qaoa_step_ref [Vec [1, 0], Mat (cm (H_operator [1, 0]))] 0 1 1 [0, 0] = Inr (\<sigma>', r) \<and>
      get_vec \<sigma>' 0 = Inr [1, 0] \<and> 2 \<le> r \<and> get_vec \<sigma>' r = Inr [1, 0]"
proof -
  let ?\<sigma> = "[Vec [1, 0], Mat (cm (H_operator [1, 0]))]"
  have v: "get_vec ?\<sigma> 0 = Inr [1, 0]" and m: "get_mat ?\<sigma> 1 = Inr (cm (H_operator [1, 0]))"
    by (simp_all add: get_vec_def get_mat_def)
  have "qaoa_step [1, 0] (mneg (outer (cv [1, 0]) (map cnj (cv [1, 0])))) 1 [0, 0] = Inr [1, 0]"
    by (rule qaoa_step_zero_angles) (simp_all add: cv_def sqnorm_pair)
  then have pure: "qaoa_step [1, 0] (cm (H_operator [1, 0])) 1 [0, 0] = Inr [1, 0]"
    by (simp only: cm_H_operator)
  from calls_leave_arguments_unchanged [OF v m, of 1 "[0, 0]"] pure
  obtain \<sigma>' r where "qaoa_step_ref ?\<sigma> 0 1 1 [0, 0] = Inr (\<sigma>', r)"
      "get_vec \<sigma>' 0 = Inr [1, 0]" "length ?\<sigma> \<le> r" "get_vec \<sigma>' r = Inr [1, 0]"
    by blast
  then show ?thesis by auto
qed

subsection \<open>The claims about the uniform superposition\<close>

text \<open>
  C7, as the code has it: \<open>plus_state\<close> raises exactly for negative \<open>n_qubits\<close>
  (a TypeError); for every \<open>n_qubits \<ge> 0\<close>, also for 0, it returns the vector of
  length \<open>2 ^ n_qubits\<close> whose entries all equal \<open>1 / sqrt (2 ^ n_qubits)\<close>, and that
  vector has Euclidean norm 1.
\<close>

theorem plus_state_total_from_zero:
  "(isl (plus_state n) \<longleftrightarrow> n < 0) \<and>
   (n < 0 \<longrightarrow> plus_state n = Inl TypeError) \<and>
   (0 \<le> n \<longrightarrow> plus_state n = Inr (replicate (2 ^ nat n) (1 / sqrt (2 ^ nat n))) \<and>
      vnorm (replicate (2 ^ nat n) (1 / sqrt (2 ^ nat n) :: real)) = 1)"
  using vnorm_uniform [of "nat n"] by (auto simp: plus_state_def)

theorem plus_state_total_from_zero_witness:
  "(0::int) \<le> 2 \<and> plus_state 2 = Inr (replicate (2 ^ nat 2) (1 / sqrt (2 ^ nat 2))) \<and>
     vnorm (replicate (2 ^ nat 2) (1 / sqrt (2 ^ nat 2) :: real)) = 1"
  using plus_state_total_from_zero [of 2] by simp

text \<open>
  C7 as stated (failure for every \<open>n < 1\<close>) does not hold at \<open>n = 0\<close>: the call
  returns the one-entry vector \<open>[1]\<close>.
\<close>

theorem plus_state_zero_returns: "(0::int) < 1 \<and> plus_state 0 = Inr [1]"
  by (simp add: plus_state_def)

end
